theory Spec2Isabelle
  imports Main "HOL-Library.Word" "HOL-Library.Monad_Syntax" "HOL-Library.List_Lexorder"
begin

unbundle bit_operations_syntax

section \<open>AVL+ tree organised into pages, with history (avl/avl\_3.go)\<close>

subsection \<open>Basic types\<close>

text \<open>
  Byte slices are lists of 8-bit words. \<open>PageID\<close> and \<open>Version\<close> are 64-bit unsigned
  integers, value lengths and all page offsets are 32-bit unsigned integers; their
  arithmetic wraps around as in Go. A Go panic is the result \<open>None\<close>.
\<close>

type_synonym byte = "8 word"
type_synonym bytes = "byte list"
type_synonym PageID = "64 word"
type_synonym Version = "64 word"
type_synonym u32 = "32 word"
type_synonym u64 = "64 word"

text \<open>
  \<open>bytes.Compare\<close> of the Go standard library: the lexicographic comparison of two byte
  slices, with result -1, 0 or +1. \<open>NewAvl3\<close> installs it as \<open>t.compare\<close>; \<open>SetCompare\<close>
  is not modelled.
\<close>

fun compare :: "bytes \<Rightarrow> bytes \<Rightarrow> int" where
  "compare [] [] = 0"
| "compare [] (y # ys) = - 1"
| "compare (x # xs) [] = 1"
| "compare (x # xs) (y # ys) =
     (if x < y then - 1 else if y < x then 1 else compare xs ys)"

text \<open>
  The constants \<open>PageSize\<close>, \<open>InlineValueMax\<close> and \<open>HashLength\<close> are declared in a file
  of the package that is not part of the sources at hand; they are parameters here.
\<close>

record consts3 =
  PageSize :: u32
  InlineValueMax :: u32
  HashLength :: u32

text \<open>Modelled from the spec: \<open>maxu32\<close> is not under src/; the larger of two numbers.\<close>

definition maxu32 :: "nat \<Rightarrow> nat \<Rightarrow> nat" where
  "maxu32 a b = (if a < b then b else a)"

text \<open>
  Modelled from the spec: \<open>commonPrefix\<close> is not under src/; the common byte prefix of
  two keys.
\<close>

fun commonPrefix :: "bytes \<Rightarrow> bytes \<Rightarrow> bytes" where
  "commonPrefix (x # xs) (y # ys) = (if x = y then x # commonPrefix xs ys else [])"
| "commonPrefix _ _ = []"

subsection \<open>Tree nodes\<close>

text \<open>
  A \<open>Ref3\<close> is nil, a \<open>*Leaf3\<close>, a \<open>*Fork3\<close> or an \<open>*Arrow3\<close>. The trees are trees in the
  heap as well (no node has two parents), so a node is modelled by its value and an
  in-place update of a node by the updated value.

  The field \<open>arrow\<close> of a node points to an \<open>Arrow3\<close> object inside the tree of the
  previous version. Such an object is created by \<open>Commit\<close>/\<open>UseFiles\<close> as the root of that
  tree (\<open>parent = nil\<close>) or by \<open>moveArrowOverFork\<close> as the left (\<open>parentC = -1\<close>) or right
  (\<open>parentC = 1\<close>) child of a fork of that tree, and \<open>parent\<close> and \<open>parentC\<close> are never
  assigned afterwards. The pointer is therefore modelled by the position of the object:
  the list of sides on the way from \<open>prevRoot\<close> to it. \<open>parent = nil\<close> is the empty path,
  \<open>parentC\<close> is the last side.

  Heights are \<open>uint32\<close> in the source. They are natural numbers here: the only height
  arithmetic is \<open>1 + maxu32(hl, hr)\<close> and guarded subtraction, which cannot wrap below
  a height of \<open>2^32 - 1\<close>.
\<close>

datatype side = SideL | SideR

type_synonym arrow_ptr = "side list"

datatype ref3 =
    Nil3
  | Leaf3 "arrow_ptr option" PageID bytes bytes u64 u32
      \<comment> \<open>arrow, pinnedPageId, key, value, valueId, valueLen\<close>
  | Fork3 "arrow_ptr option" PageID nat ref3 ref3 bytes
      \<comment> \<open>arrow, pinnedPageId, height, left, right, max\<close>
  | Arrow3 "arrow_ptr option" PageID nat bytes
      \<comment> \<open>arrow, pageId, height, max\<close>

record avl3 =
  currentVersion :: Version
  maxPageId :: PageID
  pageMap :: "PageID \<rightharpoonup> bytes"
  maxValueId :: u64
  valueMap :: "u64 \<rightharpoonup> bytes"
  valueHashes :: "u64 \<rightharpoonup> bytes"
  valueLens :: "u64 \<rightharpoonup> u32"
  freelist :: "PageID list"
  prevRoot :: ref3
  root :: ref3
  versions :: "Version \<rightharpoonup> PageID"
  pagesToRecycle :: "PageID list"
  commitedCounter :: u64
  pageSpace :: u64
  hashLength :: u32

text \<open>
  \<open>NewAvl3\<close>: no files are attached (\<open>pageFile\<close>, \<open>valueFile\<close> and \<open>verFile\<close> are nil), so
  pages and large values live in the maps. The set \<open>pagesToRecycle\<close> is a duplicate-free
  list; Go leaves the iteration order of a map open, the model iterates in list order.
\<close>

definition NewAvl3 :: avl3 where
  "NewAvl3 = \<lparr> currentVersion = 0, maxPageId = 0, pageMap = Map.empty, maxValueId = 0,
     valueMap = Map.empty, valueHashes = Map.empty, valueLens = Map.empty, freelist = [],
     prevRoot = Nil3, root = Nil3, versions = Map.empty, pagesToRecycle = [],
     commitedCounter = 0, pageSpace = 0, hashLength = 32 \<rparr>"

subsection \<open>Page store\<close>

definition nextPageId :: "avl3 \<Rightarrow> PageID \<times> avl3" where
  "nextPageId t =
     (let id = fold (\<lambda>pageId id. if id < pageId then pageId else id) (pagesToRecycle t) 0
      in if id \<noteq> 0 then (id, t\<lparr>pagesToRecycle := removeAll id (pagesToRecycle t)\<rparr>)
         else if freelist t \<noteq> [] then (last (freelist t), t\<lparr>freelist := butlast (freelist t)\<rparr>)
         else (maxPageId t + 1, t\<lparr>maxPageId := maxPageId t + 1\<rparr>))"

definition freePageId :: "PageID \<Rightarrow> avl3 \<Rightarrow> avl3" where
  "freePageId pageId t =
     (case pageMap t pageId of
        None \<Rightarrow> t
      | Some data \<Rightarrow>
          t\<lparr>pageSpace := pageSpace t - of_nat (length data),
            pageMap := (pageMap t)(pageId := None),
            freelist := freelist t @ [pageId]\<rparr>)"

definition nextValueId :: "avl3 \<Rightarrow> u64" where
  "nextValueId t = maxValueId t + 1"

definition freeValueId :: "u64 \<Rightarrow> avl3 \<Rightarrow> avl3" where
  "freeValueId valueId t =
     (if valueId = 0 then t
      else t\<lparr>valueMap := (valueMap t)(valueId := None),
             valueHashes := (valueHashes t)(valueId := None),
             valueLens := (valueLens t)(valueId := None)\<rparr>)"

definition addValue :: "u64 \<Rightarrow> bytes \<Rightarrow> avl3 \<Rightarrow> avl3" where
  "addValue valueId val t =
     t\<lparr>valueMap := (valueMap t)(valueId \<mapsto> val),
       valueLens := (valueLens t)(valueId \<mapsto> of_nat (length val)),
       maxValueId := maxValueId t + 1\<rparr>"


subsection \<open>Node accessors\<close>

text \<open>A call of a method on a nil \<open>Ref3\<close> panics.\<close>

fun getheight :: "ref3 \<Rightarrow> nat option" where
  "getheight Nil3 = None"
| "getheight (Leaf3 a p k v vid vl) = Some 1"
| "getheight (Fork3 a p h l r m) = Some h"
| "getheight (Arrow3 a pid h m) = Some h"

fun getmax :: "ref3 \<Rightarrow> bytes option" where
  "getmax Nil3 = None"
| "getmax (Leaf3 a p k v vid vl) = Some k"
| "getmax (Fork3 a p h l r m) = Some m"
| "getmax (Arrow3 a pid h m) = Some m"

text \<open>\<open>nvalue\<close> of a leaf, without a value file: an inline value, or the entry of
  \<open>valueMap\<close> (nil, the empty slice, when there is none).\<close>

definition nvalue :: "avl3 \<Rightarrow> bytes \<Rightarrow> u64 \<Rightarrow> bytes" where
  "nvalue t val valueId =
     (if valueId = 0 then val else (case valueMap t valueId of None \<Rightarrow> [] | Some v \<Rightarrow> v))"

subsection \<open>Byte buffers\<close>

text \<open>
  The operations of Go on a slice \<open>data[off:]\<close> that the serialiser uses. Slicing beyond
  the length and \<open>PutUint32\<close>/\<open>Uint32\<close> on fewer than four bytes (eight for the 64-bit
  ones) panic; \<open>copy\<close> copies as many bytes as fit.
\<close>

definition be32 :: "u32 \<Rightarrow> bytes" where
  "be32 v = [ucast (drop_bit 24 v), ucast (drop_bit 16 v), ucast (drop_bit 8 v), ucast v]"

definition be64 :: "u64 \<Rightarrow> bytes" where
  "be64 v = [ucast (drop_bit 56 v), ucast (drop_bit 48 v), ucast (drop_bit 40 v),
             ucast (drop_bit 32 v), ucast (drop_bit 24 v), ucast (drop_bit 16 v),
             ucast (drop_bit 8 v), ucast v]"

definition PutUint32 :: "bytes \<Rightarrow> u32 \<Rightarrow> u32 \<Rightarrow> bytes option" where
  "PutUint32 data off v =
     (if unat off + 4 \<le> length data
      then Some (take (unat off) data @ be32 v @ drop (unat off + 4) data) else None)"

definition PutUint64 :: "bytes \<Rightarrow> u32 \<Rightarrow> u64 \<Rightarrow> bytes option" where
  "PutUint64 data off v =
     (if unat off + 8 \<le> length data
      then Some (take (unat off) data @ be64 v @ drop (unat off + 8) data) else None)"

definition be_word :: "bytes \<Rightarrow> 'a::len word" where
  "be_word bs = foldl (\<lambda>acc b. push_bit 8 acc OR ucast b) 0 bs"

definition Uint32 :: "bytes \<Rightarrow> u32 \<Rightarrow> u32 option" where
  "Uint32 data off =
     (if unat off + 4 \<le> length data
      then Some (be_word (take 4 (drop (unat off) data))) else None)"

definition Uint64 :: "bytes \<Rightarrow> u32 \<Rightarrow> u64 option" where
  "Uint64 data off =
     (if unat off + 8 \<le> length data
      then Some (be_word (take 8 (drop (unat off) data))) else None)"

definition copy_at :: "bytes \<Rightarrow> u32 \<Rightarrow> bytes \<Rightarrow> bytes option" where
  "copy_at data off src =
     (if unat off \<le> length data
      then (let n = min (length data - unat off) (length src)
            in Some (take (unat off) data @ take n src @ drop (unat off + n) data))
      else None)"

text \<open>\<open>data[base+(bit>>3)] |= uint8(1)<<(bit&7)\<close>\<close>

definition set_bit_at :: "bytes \<Rightarrow> u32 \<Rightarrow> u32 \<Rightarrow> bytes option" where
  "set_bit_at data base b =
     (let i = unat (base + drop_bit 3 b)
      in if i < length data
         then Some (data[i := (data ! i) OR push_bit (unat (b AND 7)) 1])
         else None)"

definition get_bit_at :: "bytes \<Rightarrow> u32 \<Rightarrow> u32 \<Rightarrow> bool option" where
  "get_bit_at data base b =
     (let i = unat (base + drop_bit 3 b)
      in if i < length data
         then Some (((data ! i) AND push_bit (unat (b AND 7)) 1) \<noteq> 0)
         else None)"

text \<open>\<open>key[prefixLen:]\<close>\<close>

definition slice_from :: "bytes \<Rightarrow> nat \<Rightarrow> bytes option" where
  "slice_from k n = (if n \<le> length k then Some (drop n k) else None)"

subsection \<open>Positions in the tree of the previous version\<close>

text \<open>
  \<open>subtree_at p r\<close> follows the path \<open>p\<close> from \<open>r\<close> through forks; \<open>replace_at p new r\<close>
  is the assignment \<open>a.parent.left = new\<close> (or \<open>.right\<close>, or \<open>t.prevRoot = new\<close> when
  the path is empty). Where a path does not lead through forks the pointer is stale
  and the model gives no result.
\<close>

fun subtree_at :: "arrow_ptr \<Rightarrow> ref3 \<Rightarrow> ref3 option" where
  "subtree_at [] r = Some r"
| "subtree_at (SideL # p) (Fork3 a pin h l r m) = subtree_at p l"
| "subtree_at (SideR # p) (Fork3 a pin h l r m) = subtree_at p r"
| "subtree_at (d # p) _ = None"

fun replace_at :: "arrow_ptr \<Rightarrow> ref3 \<Rightarrow> ref3 \<Rightarrow> ref3 option" where
  "replace_at [] new r = Some new"
| "replace_at (SideL # p) new (Fork3 a pin h l r m) =
     map_option (\<lambda>l'. Fork3 a pin h l' r m) (replace_at p new l)"
| "replace_at (SideR # p) new (Fork3 a pin h l r m) =
     map_option (\<lambda>r'. Fork3 a pin h l r' m) (replace_at p new r)"
| "replace_at (d # p) new _ = None"

text \<open>\<open>a.pageId\<close> and \<open>a.pageId = pageId\<close> for the arrow object at a position.\<close>

definition arrow_pageId :: "avl3 \<Rightarrow> arrow_ptr \<Rightarrow> PageID option" where
  "arrow_pageId t p =
     (case subtree_at p (prevRoot t) of
        Some (Arrow3 a pid h m) \<Rightarrow> Some pid
      | _ \<Rightarrow> None)"

definition set_arrow_pageId :: "arrow_ptr \<Rightarrow> PageID \<Rightarrow> avl3 \<Rightarrow> avl3 option" where
  "set_arrow_pageId p pageId t =
     (case subtree_at p (prevRoot t) of
        Some (Arrow3 a pid h m) \<Rightarrow>
          map_option (\<lambda>r. t\<lparr>prevRoot := r\<rparr>) (replace_at p (Arrow3 a pageId h m) (prevRoot t))
      | _ \<Rightarrow> None)"


subsection \<open>Page serialiser\<close>

definition pageSize :: "avl3 \<Rightarrow> u32 \<Rightarrow> u32 \<Rightarrow> u32 \<Rightarrow> u32 \<Rightarrow> u32 \<Rightarrow> bytes \<Rightarrow> u32" where
  "pageSize t keyCount pageCount keyBodySize valBodySize structBits prefix =
     (let nodeCount = keyCount + pageCount;
          prefixLen = (of_nat (length prefix) :: u32)
      in 4 + 4 * ((nodeCount + 31) div 32) + 4 + 4 * nodeCount + 4
         + (12 + hashLength t) * pageCount + 4 * keyCount
         + 4 * ((structBits + 31) div 32) + prefixLen
         + keyBodySize - nodeCount * prefixLen + valBodySize)"

datatype PinnedPageID = PinnedPageID (pin_id: PageID) (pinned: bool)

text \<open>The results of \<open>serialisePass1\<close>.\<close>

record metrics =
  prefix :: bytes
  keyCount :: u32
  pageCount :: u32
  keyBodySize :: u32
  valBodySize :: u32
  structBits :: u32
  pinnedPageId :: PinnedPageID

text \<open>The cursors that \<open>serialisePass2\<close> advances through pointers, and the page buffer.\<close>

record cursors =
  data :: bytes
  nodeIndex :: u32
  structBit :: u32
  keyHeaderOffset :: u32
  arrowHeaderOffset :: u32
  valueHeaderOffset :: u32
  keyBodyOffset :: u32
  valBodyOffset :: u32

definition serialiseKey :: "bytes \<Rightarrow> cursors \<Rightarrow> cursors option" where
  "serialiseKey k cu = do {
     d1 \<leftarrow> PutUint32 (data cu) (keyHeaderOffset cu) (keyBodyOffset cu);
     d2 \<leftarrow> copy_at d1 (keyBodyOffset cu) k;
     Some (cu\<lparr>data := d2, keyHeaderOffset := keyHeaderOffset cu + 4,
              keyBodyOffset := keyBodyOffset cu + of_nat (length k)\<rparr>)
   }"

text \<open>\<open>serialiseVal\<close> returns the value id; a large value without an id gets the next one
  and is stored. The hash of a value is a zero-filled array unless \<open>valueHashes\<close> has one.\<close>

definition serialiseVal ::
  "consts3 \<Rightarrow> bytes \<Rightarrow> u64 \<Rightarrow> u32 \<Rightarrow> cursors \<times> avl3 \<Rightarrow> (u64 \<times> cursors \<times> avl3) option" where
  "serialiseVal c val valueId valueLen st = (case st of (cu, t) \<Rightarrow> do {
     d1 \<leftarrow> PutUint32 (data cu) (valueHeaderOffset cu) valueLen;
     let cu1 = cu\<lparr>data := d1, valueHeaderOffset := valueHeaderOffset cu + 4\<rparr>;
     if InlineValueMax c < valueLen then do {
       let (valueId', valueHash, t') =
             (if valueId = 0
              then (nextValueId t, replicate (unat (HashLength c)) 0,
                    addValue (nextValueId t) val t)
              else (valueId,
                    (case valueHashes t valueId of
                       None \<Rightarrow> replicate (unat (HashLength c)) 0 | Some h \<Rightarrow> h), t));
       d2 \<leftarrow> PutUint64 (data cu1) (valBodyOffset cu1) valueId';
       d3 \<leftarrow> copy_at d2 (valBodyOffset cu1 + 8) valueHash;
       Some (valueId', cu1\<lparr>data := d3, valBodyOffset := valBodyOffset cu1 + 8 + HashLength c\<rparr>, t')
     } else do {
       d2 \<leftarrow> copy_at (data cu1) (valBodyOffset cu1) val;
       Some (valueId, cu1\<lparr>data := d2, valBodyOffset := valBodyOffset cu1 + valueLen\<rparr>, t)
     }
   })"

text \<open>\<open>if r.arrow != nil { r.arrow.pageId = pageId }\<close>\<close>

definition pin_arrow :: "arrow_ptr option \<Rightarrow> PageID \<Rightarrow> avl3 \<Rightarrow> avl3 option" where
  "pin_arrow a pageId t = (case a of None \<Rightarrow> Some t | Some p \<Rightarrow> set_arrow_pageId p pageId t)"

fun serialisePass2 ::
  "consts3 \<Rightarrow> ref3 \<Rightarrow> PageID \<Rightarrow> nat \<Rightarrow> bool \<Rightarrow> u32 \<Rightarrow> u32 \<Rightarrow> cursors \<times> avl3
     \<Rightarrow> (ref3 \<times> cursors \<times> avl3) option" where
  "serialisePass2 c Nil3 pageId prefixLen subtreePinned pageBitsOffset structBitsOffset st =
     Some (Nil3, st)"
| "serialisePass2 c (Leaf3 a pin k v vid vl) pageId prefixLen subtreePinned
       pageBitsOffset structBitsOffset st = do {
     k' \<leftarrow> slice_from k prefixLen;
     cu1 \<leftarrow> serialiseKey k' (fst st);
     (vid', cu2, t2) \<leftarrow> serialiseVal c v vid vl (cu1, snd st);
     let cu3 = cu2\<lparr>nodeIndex := nodeIndex cu2 + 1\<rparr>;
     let pinned = (subtreePinned \<or> pin = pageId \<or> a \<noteq> None);
     d4 \<leftarrow> (if \<not> pinned then set_bit_at (data cu3) structBitsOffset (structBit cu3)
            else Some (data cu3));
     let cu4 = cu3\<lparr>data := d4, structBit := structBit cu3 + 1\<rparr>;
     t3 \<leftarrow> pin_arrow a pageId t2;
     Some (Leaf3 a pin k v vid' vl, cu4, t3)
   }"
| "serialisePass2 c (Fork3 a pin h l r m) pageId prefixLen subtreePinned
       pageBitsOffset structBitsOffset st = do {
     let pinned = (subtreePinned \<or> pin = pageId \<or> a \<noteq> None);
     (l', cu1, t1) \<leftarrow> serialisePass2 c l pageId prefixLen pinned pageBitsOffset structBitsOffset st;
     let cu2 = cu1\<lparr>structBit := structBit cu1 + 1\<rparr>;
     t2 \<leftarrow> pin_arrow a pageId t1;
     (r', cu3, t3) \<leftarrow> serialisePass2 c r pageId prefixLen pinned pageBitsOffset structBitsOffset (cu2, t2);
     d4 \<leftarrow> set_bit_at (data cu3) structBitsOffset (structBit cu3);
     Some (Fork3 a pin h l' r' m, cu3\<lparr>data := d4, structBit := structBit cu3 + 1\<rparr>, t3)
   }"
| "serialisePass2 c (Arrow3 a pid h m) pageId prefixLen subtreePinned
       pageBitsOffset structBitsOffset st = (case st of (cu, t) \<Rightarrow> do {
     d1 \<leftarrow> PutUint64 (data cu) (arrowHeaderOffset cu) pid;
     d2 \<leftarrow> PutUint32 d1 (arrowHeaderOffset cu + 8) (of_nat h);
     let cu1 = cu\<lparr>data := d2, arrowHeaderOffset := arrowHeaderOffset cu + 8 + 4\<rparr>;
     m' \<leftarrow> slice_from m prefixLen;
     cu2 \<leftarrow> serialiseKey m' cu1;
     let cu3 = cu2\<lparr>arrowHeaderOffset := arrowHeaderOffset cu2 + hashLength t\<rparr>;
     d4 \<leftarrow> set_bit_at (data cu3) pageBitsOffset (nodeIndex cu3);
     let cu4 = cu3\<lparr>data := d4, nodeIndex := nodeIndex cu3 + 1\<rparr>;
     d5 \<leftarrow> (if \<not> subtreePinned then set_bit_at (data cu4) structBitsOffset (structBit cu4)
            else Some (data cu4));
     Some (Arrow3 a pid h m, cu4\<lparr>data := d5, structBit := structBit cu4 + 1\<rparr>, t)
   })"

text \<open>
  \<open>commitPage\<close> lays the page out, fills it by \<open>serialisePass2\<close> and stores it in
  \<open>pageMap\<close>. It returns the page id; the model returns the buffer and the node as
  updated by the second pass as well.
\<close>

definition commitPage :: "consts3 \<Rightarrow> avl3 \<Rightarrow> ref3 \<Rightarrow> metrics \<Rightarrow> (PageID \<times> bytes \<times> ref3 \<times> avl3) option" where
  "commitPage c t r m = do {
     let nodeCount = keyCount m + pageCount m;
     let size' = pageSize t (keyCount m) (pageCount m) (keyBodySize m) (valBodySize m)
                  (structBits m) (prefix m);
     let data0 = replicate (unat size') (0 :: byte);
     data1 \<leftarrow> PutUint32 data0 0 nodeCount;
     let pageBitsOffset = (4 :: u32);
     let prefixOffsetOffset = pageBitsOffset + 4 * ((nodeCount + 31) div 32);
     let keyHeaderOffset0 = prefixOffsetOffset + 4;
     let arrowHeaderOffset0 = keyHeaderOffset0 + (4 * nodeCount + 4);
     let valueHeaderOffset0 = arrowHeaderOffset0 + (12 + hashLength t) * pageCount m;
     let structBitsOffset = valueHeaderOffset0 + 4 * keyCount m;
     let offset = structBitsOffset + 4 * ((structBits m + 31) div 32);
     data2 \<leftarrow> PutUint32 data1 prefixOffsetOffset offset;
     data3 \<leftarrow> copy_at data2 offset (prefix m);
     let keyBodyOffset0 = offset + of_nat (length (prefix m));
     let valBodyOffset0 = keyBodyOffset0
           + (keyBodySize m - nodeCount * of_nat (length (prefix m)));
     let (id, t1) = (if pinned (pinnedPageId m) then (pin_id (pinnedPageId m), t)
                     else nextPageId t);
     (r', cu, t2) \<leftarrow> serialisePass2 c r id (length (prefix m)) False pageBitsOffset structBitsOffset
        (\<lparr>data = data3, nodeIndex = 0, structBit = 0, keyHeaderOffset = keyHeaderOffset0,
          arrowHeaderOffset = arrowHeaderOffset0, valueHeaderOffset = valueHeaderOffset0,
          keyBodyOffset = keyBodyOffset0, valBodyOffset = valBodyOffset0\<rparr>, t1);
     data4 \<leftarrow> PutUint32 (data cu) (keyHeaderOffset cu) (keyBodyOffset cu);
     if valBodyOffset cu \<noteq> size' then None
     else if nodeIndex cu \<noteq> nodeCount then None
     else if structBit cu \<noteq> structBits m then None
     else Some (id, data4, r',
                t2\<lparr>pageMap := (pageMap t2)(id \<mapsto> data4),
                   commitedCounter := commitedCounter t2 + 1,
                   pageSpace := pageSpace t2 + ucast size'\<rparr>)
   }"

text \<open>
  The pin of a node in the first pass: its old pin, or a new one numbered by the
  counter \<open>*maxPageId\<close> when the previous version still points at the node.
\<close>

definition node_pin :: "arrow_ptr option \<Rightarrow> PageID \<Rightarrow> PageID \<Rightarrow> PinnedPageID \<times> PageID" where
  "node_pin a pin mp =
     (if pin \<noteq> 0 then (PinnedPageID pin True, mp)
      else if a \<noteq> None then (PinnedPageID (mp + 1) False, mp + 1)
      else (PinnedPageID 0 False, mp))"

text \<open>The three-way and the two-way decision whether pins allow one page, with the
  pin of the merged subtree.\<close>

definition mergePin3 :: "PinnedPageID \<Rightarrow> PinnedPageID \<Rightarrow> PinnedPageID \<Rightarrow> bool \<times> PinnedPageID" where
  "mergePin3 pinnedPageL pinnedPageR pinnedPageId' =
     (if pin_id pinnedPageL = 0 \<and> pin_id pinnedPageR = 0 then (True, pinnedPageId')
      else if pin_id pinnedPageL = 0 \<and> pin_id pinnedPageId' = 0 then (True, pinnedPageR)
      else if pin_id pinnedPageR = 0 \<and> pin_id pinnedPageId' = 0 then (True, pinnedPageL)
      else if pin_id pinnedPageL = pin_id pinnedPageR \<and> pinned pinnedPageL = pinned pinnedPageR
              \<and> pin_id pinnedPageR = pin_id pinnedPageId' \<and> pinned pinnedPageR = pinned pinnedPageId'
           then (True, pinnedPageId')
      else (False, PinnedPageID 0 False))"

definition mergePin2 :: "PinnedPageID \<Rightarrow> PinnedPageID \<Rightarrow> bool \<times> PinnedPageID" where
  "mergePin2 pinnedPageC pinnedPageId' =
     (if pin_id pinnedPageC = 0 then (True, pinnedPageId')
      else if pin_id pinnedPageId' = 0 then (True, pinnedPageC)
      else if pin_id pinnedPageC = pin_id pinnedPageId' \<and> pinned pinnedPageC = pinned pinnedPageId'
           then (True, pinnedPageId')
      else (False, PinnedPageID 0 False))"

text \<open>
  \<open>if a, ok := child.(*Arrow3); ok { arrow = a } else { id := t.commitPage(child, ...);
  arrow = &Arrow3{pageId: id, height: child.getheight(), max: child.getmax()} }\<close>:
  the child as an arrow, and its \<open>max\<close>.
\<close>

definition commitChild :: "consts3 \<Rightarrow> avl3 \<Rightarrow> ref3 \<Rightarrow> metrics \<Rightarrow> (ref3 \<times> bytes \<times> avl3) option" where
  "commitChild c t child m =
     (case child of
        Arrow3 a pid h mx \<Rightarrow> Some (child, mx, t)
      | _ \<Rightarrow> do {
          (id, d, child', t') \<leftarrow> commitPage c t child m;
          h \<leftarrow> getheight child';
          mx \<leftarrow> getmax child';
          Some (Arrow3 None id h mx, mx, t')
        })"

text \<open>The part of \<open>Fork3.serialisePass1\<close> after the two recursive calls.\<close>

definition pass1Fork ::
  "consts3 \<Rightarrow> avl3 \<Rightarrow> arrow_ptr option \<Rightarrow> PageID \<Rightarrow> nat \<Rightarrow> bytes \<Rightarrow> PinnedPageID
     \<Rightarrow> ref3 \<Rightarrow> metrics \<Rightarrow> ref3 \<Rightarrow> metrics \<Rightarrow> (ref3 \<times> metrics \<times> avl3) option" where
  "pass1Fork c t a pin h mx pinnedPageId' l mL r mR =
     (let (mergable3, mergePin3') = mergePin3 (pinnedPageId mL) (pinnedPageId mR) pinnedPageId';
          keyCountLFR = keyCount mL + keyCount mR;
          pageCountLFR = pageCount mL + pageCount mR;
          keyBodySizeLFR = keyBodySize mL + keyBodySize mR;
          valBodySizeLFR = valBodySize mL + valBodySize mR;
          structBitsLFR = structBits mL + structBits mR + 2;
          prefixLFR = commonPrefix (prefix mL) (prefix mR);
          sizeLFR = pageSize t keyCountLFR pageCountLFR keyBodySizeLFR valBodySizeLFR
                      structBitsLFR prefixLFR
      in if mergable3 \<and> sizeLFR < PageSize c
         then Some (Fork3 a pin h l r mx,
                    \<lparr>prefix = prefixLFR, keyCount = keyCountLFR, pageCount = pageCountLFR,
                     keyBodySize = keyBodySizeLFR, valBodySize = valBodySizeLFR,
                     structBits = structBitsLFR, pinnedPageId = mergePin3'\<rparr>, t)
         else
          (let sizeL = pageSize t (keyCount mL) (pageCount mL) (keyBodySize mL) (valBodySize mL)
                         (structBits mL) (prefix mL);
               sizeR = pageSize t (keyCount mR) (pageCount mR) (keyBodySize mR) (valBodySize mR)
                         (structBits mR) (prefix mR);
               (mergableR, mergePinR) = mergePin2 (pinnedPageId mR) pinnedPageId';
               (mergableL, mergePinL) = mergePin2 (pinnedPageId mL) pinnedPageId'
           in if sizeR < sizeL then do {
                (lArrow, lmax, t1) \<leftarrow> commitChild c t l mL;
                let pageCountFR = pageCount mR + 1;
                let keyBodySizeFR = keyBodySize mR + of_nat (length lmax);
                let structBitsFR = structBits mR + 3;
                let prefixFR = commonPrefix (prefix mR) lmax;
                let sizeFR = pageSize t1 (keyCount mR) pageCountFR keyBodySizeFR (valBodySize mR)
                               structBitsFR prefixFR;
                if mergableR \<and> sizeFR < PageSize c
                then Some (Fork3 a pin h lArrow r mx,
                           \<lparr>prefix = prefixFR, keyCount = keyCount mR, pageCount = pageCountFR,
                            keyBodySize = keyBodySizeFR, valBodySize = valBodySize mR,
                            structBits = structBitsFR, pinnedPageId = mergePinR\<rparr>, t1)
                else do {
                  (rArrow, rmax, t2) \<leftarrow> commitChild c t1 r mR;
                  Some (Fork3 a pin h lArrow rArrow mx,
                        \<lparr>prefix = commonPrefix rmax lmax, keyCount = 0, pageCount = 2,
                         keyBodySize = of_nat (length lmax) + of_nat (length rmax),
                         valBodySize = 0, structBits = 4, pinnedPageId = pinnedPageId'\<rparr>, t2)
                }
              } else do {
                (rArrow, rmax, t1) \<leftarrow> commitChild c t r mR;
                let pageCountFL = pageCount mL + 1;
                let keyBodySizeFL = keyBodySize mL + of_nat (length rmax);
                let structBitsFL = structBits mL + 3;
                let prefixFL = commonPrefix (prefix mL) rmax;
                let sizeFL = pageSize t1 (keyCount mL) pageCountFL keyBodySizeFL (valBodySize mL)
                               structBitsFL prefixFL;
                if mergableL \<and> sizeFL < PageSize c
                then Some (Fork3 a pin h l rArrow mx,
                           \<lparr>prefix = prefixFL, keyCount = keyCount mL, pageCount = pageCountFL,
                            keyBodySize = keyBodySizeFL, valBodySize = valBodySize mL,
                            structBits = structBitsFL, pinnedPageId = mergePinL\<rparr>, t1)
                else do {
                  (lArrow, lmax, t2) \<leftarrow> commitChild c t1 l mL;
                  Some (Fork3 a pin h lArrow rArrow mx,
                        \<lparr>prefix = commonPrefix rmax lmax, keyCount = 0, pageCount = 2,
                         keyBodySize = of_nat (length lmax) + of_nat (length rmax),
                         valBodySize = 0, structBits = 4, pinnedPageId = pinnedPageId'\<rparr>, t2)
                }
              }))"


fun serialisePass1 ::
  "consts3 \<Rightarrow> avl3 \<Rightarrow> PageID \<Rightarrow> ref3 \<Rightarrow> (ref3 \<times> metrics \<times> avl3 \<times> PageID) option" where
  "serialisePass1 c t mp Nil3 = None"
| "serialisePass1 c t mp (Leaf3 a pin k v vid vl) =
     (let (pinnedPageId', mp') = node_pin a pin mp
      in Some (Leaf3 a pin k v vid vl,
               \<lparr>prefix = k, keyCount = 1, pageCount = 0, keyBodySize = of_nat (length k),
                valBodySize = (if InlineValueMax c < vl then 8 + HashLength c else vl),
                structBits = 1, pinnedPageId = pinnedPageId'\<rparr>, t, mp'))"
| "serialisePass1 c t mp (Fork3 a pin h l r mx) =
     (let (pinnedPageId', mp0) = node_pin a pin mp
      in do {
        (l', mL, t1, mp1) \<leftarrow> serialisePass1 c t mp0 l;
        (r', mR, t2, mp2) \<leftarrow> serialisePass1 c t1 mp1 r;
        (f', m, t3) \<leftarrow> pass1Fork c t2 a pin h mx pinnedPageId' l' mL r' mR;
        Some (f', m, t3, mp2)
      })"
| "serialisePass1 c t mp (Arrow3 a pid h mx) =
     Some (Arrow3 a pid h mx,
           \<lparr>prefix = mx, keyCount = 0, pageCount = 1, keyBodySize = of_nat (length mx),
            valBodySize = 0, structBits = 1, pinnedPageId = PinnedPageID 0 False\<rparr>, t, mp)"

subsection \<open>Commit\<close>

text \<open>
  \<open>Commit\<close> without a version file. The nodes are updated in place by both passes, so
  \<open>t.root\<close> and \<open>t.prevRoot\<close> hold the updated trees between the steps.
\<close>

definition Commit :: "consts3 \<Rightarrow> avl3 \<Rightarrow> (u64 \<times> avl3) option" where
  "Commit c t =
     (if root t = Nil3 then Some (0, t)
      else do {
        let startCounter = commitedCounter t;
        (r1, m1, t1, mpid1) \<leftarrow> serialisePass1 c t 0 (root t);
        (currentId, d1, r2, t2) \<leftarrow> commitPage c (t1\<lparr>root := r1\<rparr>) r1 m1;
        let t3 = t2\<lparr>root := r2\<rparr>;
        t4 \<leftarrow> (if prevRoot t3 \<noteq> Nil3 then do {
                 (p1, pm1, t', mpid2) \<leftarrow> serialisePass1 c t3 (maxPageId t3) (prevRoot t3);
                 (prevId, d2, p2, t'') \<leftarrow> commitPage c (t'\<lparr>prevRoot := p1\<rparr>) p1 pm1;
                 Some (t''\<lparr>prevRoot := p2,
                           versions := (versions t'')(currentVersion t'' \<mapsto> prevId)\<rparr>)
               } else Some t3);
        let t5 = fold freePageId (pagesToRecycle t4) t4;
        let t6 = t5\<lparr>pagesToRecycle := [], currentVersion := currentVersion t5 + 1\<rparr>;
        let t7 = t6\<lparr>versions := (versions t6)(currentVersion t6 \<mapsto> currentId)\<rparr>;
        h \<leftarrow> getheight (root t7);
        mx \<leftarrow> getmax (root t7);
        Some (commitedCounter t7 - startCounter,
              t7\<lparr>root := Arrow3 (Some []) currentId h mx,
                 prevRoot := Arrow3 None currentId h mx\<rparr>)
      })"


subsection \<open>Page deserialiser\<close>

text \<open>\<open>bits.OnesCount32\<close>\<close>

definition OnesCount32 :: "u32 \<Rightarrow> u32" where
  "OnesCount32 w = of_nat (length (filter (bit w) [0..<32]))"

text \<open>The loop that counts the arrows of a page: \<open>n\<close> words of page bits from \<open>off\<close>.\<close>

fun countPages :: "bytes \<Rightarrow> u32 \<Rightarrow> nat \<Rightarrow> u32 \<Rightarrow> u32 option" where
  "countPages d off n acc =
     (if n = 0 then Some acc
      else do { w \<leftarrow> Uint32 d off; countPages d (off + 4) (n - 1) (acc + OnesCount32 w) })"

text \<open>\<open>make([]byte, n); copy(buf, data[off:])\<close>\<close>

definition read_padded :: "bytes \<Rightarrow> u32 \<Rightarrow> u32 \<Rightarrow> bytes option" where
  "read_padded d off n =
     (if unat off \<le> length d
      then Some (take (unat n) (drop (unat off) d @ replicate (unat n) 0))
      else None)"

definition deserialiseKey :: "bytes \<Rightarrow> u32 \<Rightarrow> bytes \<Rightarrow> bytes option" where
  "deserialiseKey d keyHeaderOffset' prefix' = do {
     keyStart \<leftarrow> Uint32 d keyHeaderOffset';
     keyEnd \<leftarrow> Uint32 d (keyHeaderOffset' + 4);
     if keyStart \<le> keyEnd \<and> unat keyEnd \<le> length d
     then Some (prefix' @ take (unat keyEnd - unat keyStart) (drop (unat keyStart) d))
     else None
   }"

text \<open>The result is the value, the value id, the value length and the new \<open>valBodyOffset\<close>.\<close>

definition deserialiseVal :: "consts3 \<Rightarrow> bytes \<Rightarrow> u32 \<Rightarrow> u32 \<Rightarrow> (bytes \<times> u64 \<times> u32 \<times> u32) option" where
  "deserialiseVal c d valueHeaderOffset' valBodyOffset' = do {
     valLen \<leftarrow> Uint32 d valueHeaderOffset';
     if InlineValueMax c < valLen then do {
       valueId \<leftarrow> Uint64 d valBodyOffset';
       Some ([], valueId, valLen, valBodyOffset' + 8 + HashLength c)
     } else do {
       v \<leftarrow> read_padded d valBodyOffset' valLen;
       Some (v, 0, valLen, valBodyOffset' + valLen)
     }
   }"

text \<open>
  The state of the loop over the structure bits. The stack \<open>forkStack[0..forkStackTop)\<close>
  with \<open>pinnedStack\<close> is a list of pairs with the top first. \<open>point\<close> is a pointer to a
  node that is still updated afterwards, so it is kept as a position: the index of a
  stack entry, counted from the bottom, and the path from that entry.
\<close>

record dstate =
  forkStack :: "(ref3 \<times> bool) list"
  point :: "(nat \<times> arrow_ptr) option"
  d_nodeIndex :: u32
  d_structBit :: u32
  noLeaf :: bool
  releaseId :: bool
  d_keyHeaderOffset :: u32
  d_arrowHeaderOffset :: u32
  d_valueHeaderOffset :: u32
  d_valBodyOffset :: u32

fun set_pinned :: "PageID \<Rightarrow> ref3 \<Rightarrow> ref3" where
  "set_pinned pageId (Leaf3 a pin k v vid vl) = Leaf3 a pageId k v vid vl"
| "set_pinned pageId (Fork3 a pin h l r m) = Fork3 a pageId h l r m"
| "set_pinned pageId r = r"

text \<open>A structure bit 1 after a complete subtree: the subtree on top of the stack becomes
  the right child of the fork below it.\<close>

definition closeFork :: "PageID \<Rightarrow> bytes \<Rightarrow> nat \<Rightarrow> dstate \<Rightarrow> dstate option" where
  "closeFork pageId k height' s =
     (case forkStack s of
        (x, xPinned) # (Fork3 ya ypin yh yl yr ym, yPinned) # rest \<Rightarrow> do {
          xh \<leftarrow> getheight x;
          xm \<leftarrow> getmax x;
          let h' = maxu32 yh (1 + xh);
          let lvl = length rest;
          let point' = (if h' = height' \<and> xm = k then Some (lvl, [])
                        else (case point s of
                                Some (i, p) \<Rightarrow> if i = Suc lvl then Some (lvl, SideR # p) else Some (i, p)
                              | None \<Rightarrow> None));
          let x' = (if xPinned \<and> \<not> yPinned then set_pinned pageId x else x);
          let yl' = (if \<not> xPinned \<and> yPinned then set_pinned pageId yl else yl);
          let yPinned' = (if \<not> xPinned \<and> yPinned then False else yPinned);
          Some (s\<lparr>forkStack := (Fork3 ya ypin h' yl' x' xm, yPinned') # rest,
                  point := point', noLeaf := True\<rparr>)
        }
      | _ \<Rightarrow> None)"

text \<open>A structure bit 0 after a complete subtree: it becomes the left child of a new fork.\<close>

definition openFork :: "dstate \<Rightarrow> dstate option" where
  "openFork s =
     (case forkStack s of
        (x, xPinned) # rest \<Rightarrow> do {
          xh \<leftarrow> getheight x;
          let lvl = length rest;
          let point' = (case point s of
                          Some (i, p) \<Rightarrow> if i = lvl then Some (lvl, SideL # p) else Some (i, p)
                        | None \<Rightarrow> None);
          Some (s\<lparr>forkStack := (Fork3 None 0 (1 + xh) x Nil3 [], xPinned) # rest,
                  point := point', noLeaf := False\<rparr>)
        }
      | [] \<Rightarrow> None)"

text \<open>The next node of the page, a leaf or an arrow, pushed with its pin flag.\<close>

definition readNode :: "consts3 \<Rightarrow> avl3 \<Rightarrow> bytes \<Rightarrow> u32 \<Rightarrow> bytes \<Rightarrow> bytes \<Rightarrow> nat \<Rightarrow> bool \<Rightarrow> dstate \<Rightarrow> dstate option" where
  "readNode c t d pageBitsOffset prefix' k height' sbit s = do {
     isPage \<leftarrow> get_bit_at d pageBitsOffset (d_nodeIndex s);
     (r, s1) \<leftarrow> (if isPage then do {
         id \<leftarrow> Uint64 d (d_arrowHeaderOffset s);
         h \<leftarrow> Uint32 d (d_arrowHeaderOffset s + 8);
         mx \<leftarrow> deserialiseKey d (d_keyHeaderOffset s) prefix';
         Some (Arrow3 None id (unat h) mx,
               s\<lparr>d_arrowHeaderOffset := d_arrowHeaderOffset s + 8 + 4 + hashLength t,
                 d_keyHeaderOffset := d_keyHeaderOffset s + 4\<rparr>)
       } else do {
         lk \<leftarrow> deserialiseKey d (d_keyHeaderOffset s) prefix';
         (v, vid, vl, vbo) \<leftarrow> deserialiseVal c d (d_valueHeaderOffset s) (d_valBodyOffset s);
         Some (Leaf3 None 0 lk v vid vl,
               s\<lparr>d_keyHeaderOffset := d_keyHeaderOffset s + 4,
                 d_valueHeaderOffset := d_valueHeaderOffset s + 4,
                 d_valBodyOffset := vbo,
                 point := (if height' = 1 \<and> lk = k then Some (length (forkStack s), [])
                           else point s)\<rparr>)
       });
     Some (s1\<lparr>d_nodeIndex := d_nodeIndex s1 + 1, noLeaf := True,
              releaseId := (if \<not> sbit then False else releaseId s1),
              forkStack := (r, \<not> sbit) # forkStack s1\<rparr>)
   }"

text \<open>The loop. It ends with the stack and the point, or panics.\<close>

partial_function (option) deserialiseLoop ::
  "consts3 \<Rightarrow> avl3 \<Rightarrow> PageID \<Rightarrow> bytes \<Rightarrow> bytes \<Rightarrow> nat \<Rightarrow> u32 \<Rightarrow> u32 \<Rightarrow> u32 \<Rightarrow> u32 \<Rightarrow> bytes
     \<Rightarrow> dstate \<Rightarrow> dstate option" where
  "deserialiseLoop c t pageId d k height' nodeCount maxStructBits pageBitsOffset structBitsOffset
      prefix' s =
     (if d_nodeIndex s < nodeCount \<or> d_structBit s < maxStructBits then
        (case get_bit_at d structBitsOffset (d_structBit s) of
           None \<Rightarrow> None
         | Some sbit \<Rightarrow>
            if \<not> sbit \<and> d_nodeIndex s = nodeCount then Some s
            else
              (case (if noLeaf s
                     then (if sbit then closeFork pageId k height' s else openFork s)
                     else readNode c t d pageBitsOffset prefix' k height' sbit s) of
                 None \<Rightarrow> None
               | Some s' \<Rightarrow>
                   deserialiseLoop c t pageId d k height' nodeCount maxStructBits pageBitsOffset
                     structBitsOffset prefix' (s'\<lparr>d_structBit := d_structBit s' + 1\<rparr>)))
      else Some s)"

declare deserialiseLoop.simps [code]

text \<open>
  \<open>deserialisePage(pageId, key, height)\<close> without a page file. A nil \<open>key\<close> is \<open>None\<close>. The
  result is \<open>point\<close> (\<open>Nil3\<close> for nil) and \<open>releaseId\<close>.
\<close>

definition deserialisePage :: "consts3 \<Rightarrow> avl3 \<Rightarrow> PageID \<Rightarrow> bytes option \<Rightarrow> nat \<Rightarrow> (ref3 \<times> bool) option" where
  "deserialisePage c t pageId key' height' =
     (case pageMap t pageId of
        None \<Rightarrow> Some (Nil3, False)
      | Some d \<Rightarrow> do {
          nodeCount \<leftarrow> Uint32 d 0;
          if nodeCount = 0 then Some (Nil3, False)
          else do {
            let pageBitsOffset = (4 :: u32);
            let pageBitsLen = 4 * ((nodeCount + 31) div 32);
            pageCount' \<leftarrow> countPages d pageBitsOffset (unat pageBitsLen div 4) 0;
            let offset1 = pageBitsOffset + pageBitsLen;
            let keyCount' = nodeCount - pageCount';
            prefixOffset \<leftarrow> Uint32 d offset1;
            let keyHeaderOffset' = offset1 + 4;
            firstKey \<leftarrow> Uint32 d keyHeaderOffset';
            prefix' \<leftarrow> read_padded d prefixOffset (firstKey - prefixOffset);
            let offset2 = keyHeaderOffset' + 4 * nodeCount;
            valBodyOffset' \<leftarrow> Uint32 d offset2;
            let arrowHeaderOffset' = offset2 + 4;
            let valueHeaderOffset' = arrowHeaderOffset' + (12 + hashLength t) * pageCount';
            let structBitsOffset = valueHeaderOffset' + 4 * keyCount';
            let maxStructBits = push_bit 3 (prefixOffset - structBitsOffset);
            s \<leftarrow> deserialiseLoop c t pageId d (case key' of None \<Rightarrow> [] | Some k \<Rightarrow> k) height'
                   nodeCount maxStructBits pageBitsOffset structBitsOffset prefix'
                   \<lparr>forkStack = [], point = None, d_nodeIndex = 0, d_structBit = 0,
                    noLeaf = False, releaseId = True,
                    d_keyHeaderOffset = keyHeaderOffset',
                    d_arrowHeaderOffset = arrowHeaderOffset',
                    d_valueHeaderOffset = valueHeaderOffset',
                    d_valBodyOffset = valBodyOffset'\<rparr>;
            let stack = rev (map (\<lambda>(r, pinned'). if pinned' then set_pinned pageId r else r)
                               (forkStack s));
            (case point s of
               Some (i, p) \<Rightarrow>
                 (if i < length stack
                  then map_option (\<lambda>r. (r, releaseId s)) (subtree_at p (stack ! i))
                  else None)
             | None \<Rightarrow>
                 if key' = None \<and> height' = 0
                 then (case stack of [] \<Rightarrow> None | r # rs \<Rightarrow> Some (r, releaseId s))
                 else Some (Nil3, releaseId s))
          }
        })"


subsection \<open>Arrows of the previous version\<close>

text \<open>\<open>n.arrow = a\<close> on a node of any kind.\<close>

fun set_arrow :: "arrow_ptr option \<Rightarrow> ref3 \<Rightarrow> ref3" where
  "set_arrow a Nil3 = Nil3"
| "set_arrow a (Leaf3 a0 pin k v vid vl) = Leaf3 a pin k v vid vl"
| "set_arrow a (Fork3 a0 pin h l r m) = Fork3 a pin h l r m"
| "set_arrow a (Arrow3 a0 pid h m) = Arrow3 a pid h m"

text \<open>The page id of a child arrow of the shadow fork: that of the child when the child is
  an arrow itself, that of the arrow moved otherwise.\<close>

fun child_pageId :: "PageID \<Rightarrow> ref3 \<Rightarrow> PageID" where
  "child_pageId apid (Arrow3 a pid h m) = pid"
| "child_pageId apid r = apid"

text \<open>
  \<open>moveArrowOverFork(a, f)\<close>, with \<open>a\<close> at position \<open>p\<close> and the fields of \<open>f\<close>: the
  result is \<open>f\<close> as updated, and \<open>prevRoot\<close> has the shadow fork in the place of \<open>a\<close>.
\<close>

definition moveArrowOverFork ::
  "avl3 \<Rightarrow> arrow_ptr \<Rightarrow> PageID \<Rightarrow> nat \<Rightarrow> ref3 \<Rightarrow> ref3 \<Rightarrow> bytes \<Rightarrow> (ref3 \<times> avl3) option" where
  "moveArrowOverFork t p pin h l r m = do {
     apid \<leftarrow> arrow_pageId t p;
     lh \<leftarrow> getheight l;
     lm \<leftarrow> getmax l;
     rh \<leftarrow> getheight r;
     rm \<leftarrow> getmax r;
     let lArrow = Arrow3 None (child_pageId apid l) lh lm;
     let rArrow = Arrow3 None (child_pageId apid r) rh rm;
     let fork = Fork3 None pin h lArrow rArrow m;
     prev \<leftarrow> replace_at p fork (prevRoot t);
     Some (Fork3 None 0 h (set_arrow (Some (p @ [SideL])) l) (set_arrow (Some (p @ [SideR])) r) m,
           t\<lparr>prevRoot := prev\<rparr>)
   }"

text \<open>\<open>moveArrowOverLeaf(a, l)\<close>: the shadow leaf takes the place of \<open>a\<close>; the caller's
  leaf loses its arrow.\<close>

definition moveArrowOverLeaf :: "avl3 \<Rightarrow> arrow_ptr \<Rightarrow> bytes \<Rightarrow> bytes \<Rightarrow> u64 \<Rightarrow> avl3 option" where
  "moveArrowOverLeaf t p k v vid =
     (let val = nvalue t v vid
      in map_option (\<lambda>prev. t\<lparr>prevRoot := prev\<rparr>)
           (replace_at p (Leaf3 None 0 k val 0 (of_nat (length val))) (prevRoot t)))"

text \<open>\<open>if n.arrow != nil { t.moveArrowOverFork(n.arrow, n) }\<close> on a fork; any other
  node is a failed type assertion \<open>.(*Fork3)\<close>.\<close>

fun unhookFork :: "avl3 \<Rightarrow> ref3 \<Rightarrow> (ref3 \<times> avl3) option" where
  "unhookFork t (Fork3 None pin h l r m) = Some (Fork3 None pin h l r m, t)"
| "unhookFork t (Fork3 (Some p) pin h l r m) = moveArrowOverFork t p pin h l r m"
| "unhookFork t _ = None"

subsection \<open>Loading pages on demand\<close>

text \<open>
  The loops and recursions below follow arrows into pages, and pages may refer to each
  other in a cycle. They take a bound on the number of nested page loads; with the
  bound used up the result is \<open>None\<close>. An arrow's \<open>max\<close> is passed as a non-nil key.
\<close>

fun IsLeaf :: "nat \<Rightarrow> consts3 \<Rightarrow> avl3 \<Rightarrow> ref3 \<Rightarrow> bool option" where
  "IsLeaf n c t Nil3 = None"
| "IsLeaf n c t (Leaf3 a pin k v vid vl) = Some True"
| "IsLeaf n c t (Fork3 a pin h l r m) = Some False"
| "IsLeaf 0 c t (Arrow3 a pid h m) = None"
| "IsLeaf (Suc n) c t (Arrow3 a pid h m) = do {
     (cur, rel) \<leftarrow> deserialisePage c t pid (Some m) h;
     if cur = Nil3 then None else IsLeaf n c t cur
   }"

fun Peel :: "nat \<Rightarrow> consts3 \<Rightarrow> avl3 \<Rightarrow> ref3 \<Rightarrow> (ref3 \<times> avl3) option" where
  "Peel n c t Nil3 = None"
| "Peel n c t (Leaf3 a pin k v vid vl) = Some (Leaf3 a pin k v vid vl, t)"
| "Peel n c t (Fork3 a pin h l r m) = Some (Fork3 a pin h l r m, t)"
| "Peel 0 c t (Arrow3 a pid h m) = None"
| "Peel (Suc n) c t (Arrow3 a pid h m) = do {
     (pt, rel) \<leftarrow> deserialisePage c t pid (Some m) h;
     if pt = Nil3 then None
     else do {
       let t1 = (if rel then t\<lparr>pagesToRecycle := List.insert pid (pagesToRecycle t)\<rparr> else t);
       (pt', t2) \<leftarrow> (case a of
           None \<Rightarrow> Some (pt, t1)
         | Some p \<Rightarrow> map_option (\<lambda>t'. (set_arrow (Some p) pt, t')) (set_arrow_pageId p pid t1));
       Peel n c t2 pt'
     }
   }"

subsection \<open>Get\<close>

fun Get_loop :: "nat \<Rightarrow> consts3 \<Rightarrow> avl3 \<Rightarrow> ref3 \<Rightarrow> bytes \<Rightarrow> (bytes \<times> bool) option" where
  "Get_loop n c t Nil3 key' = Some ([], False)"
| "Get_loop n c t (Leaf3 a pin k v vid vl) key' =
     (if key' = k then Some (nvalue t v vid, True) else Some ([], False))"
| "Get_loop n c t (Fork3 a pin h l r m) key' = do {
     lm \<leftarrow> getmax l;
     let cmp = compare key' lm;
     if cmp = 0 \<or> cmp = - 1 then Get_loop n c t l key'
     else if cmp = 1 then Get_loop n c t r key'
     else None
   }"
| "Get_loop 0 c t (Arrow3 a pid h m) key' = None"
| "Get_loop (Suc n) c t (Arrow3 a pid h m) key' = do {
     (cur, rel) \<leftarrow> deserialisePage c t pid (Some m) h;
     if cur = Nil3 then None else Get_loop n c t cur key'
   }"

definition Get :: "nat \<Rightarrow> consts3 \<Rightarrow> avl3 \<Rightarrow> bytes \<Rightarrow> (bytes \<times> bool) option" where
  "Get n c t key' = Get_loop n c t (root t) key'"


subsection \<open>Insert\<close>

text \<open>The pre-scan of \<open>Insert\<close>: it ends with \<open>return false\<close> or leaves the loop with the
  flag \<open>inserted\<close>.\<close>

datatype scan_result = ReturnFalse | Break bool

fun Insert_scan :: "nat \<Rightarrow> consts3 \<Rightarrow> avl3 \<Rightarrow> ref3 \<Rightarrow> bytes \<Rightarrow> bytes \<Rightarrow> scan_result option" where
  "Insert_scan n c t Nil3 key' value' = Some (Break True)"
| "Insert_scan n c t (Leaf3 a pin k v vid vl) key' value' =
     (if key' = k
      then (if value' = nvalue t v vid then Some ReturnFalse else Some (Break False))
      else Some (Break True))"
| "Insert_scan n c t (Fork3 a pin h l r m) key' value' = do {
     lm \<leftarrow> getmax l;
     let cmp = compare key' lm;
     if cmp = 0 \<or> cmp = - 1 then Insert_scan n c t l key' value'
     else if cmp = 1 then Insert_scan n c t r key' value'
     else None
   }"
| "Insert_scan 0 c t (Arrow3 a pid h m) key' value' = None"
| "Insert_scan (Suc n) c t (Arrow3 a pid h m) key' value' = do {
     (cur, rel) \<leftarrow> deserialisePage c t pid (Some m) h;
     if cur = Nil3 then None else Insert_scan n c t cur key' value'
   }"

text \<open>
  The part of \<open>insert\<close> on a fork after the recursive call: the new height and the
  rotations. The arguments are the fields of \<open>n\<close> with the child and \<open>max\<close> already
  updated.
\<close>

definition insertBalance ::
  "nat \<Rightarrow> consts3 \<Rightarrow> avl3 \<Rightarrow> PageID \<Rightarrow> ref3 \<Rightarrow> ref3 \<Rightarrow> bytes \<Rightarrow> bytes \<Rightarrow> (ref3 \<times> avl3) option" where
  "insertBalance fuel c t pin l r m key' = do {
     lHeight \<leftarrow> getheight l;
     rHeight \<leftarrow> getheight r;
     let h = 1 + maxu32 lHeight rHeight;
     if lHeight < rHeight then
       (if 1 < rHeight - lHeight then do {
          (pr, t1) \<leftarrow> Peel fuel c t r;
          (nr, t2) \<leftarrow> unhookFork t1 pr;
          (case nr of
             Fork3 nra nrpin nrh nrl nrr nrm \<Rightarrow> do {
               nrrh \<leftarrow> getheight nrr;
               nrlh \<leftarrow> getheight nrl;
               if nrlh \<le> nrrh then do {
                 nmax \<leftarrow> getmax nrl;
                 let nh = 1 + maxu32 lHeight nrlh;
                 Some (Fork3 nra nrpin (1 + maxu32 nh nrrh) (Fork3 None pin nh l nrl nmax) nrr nrm, t2)
               } else do {
                 (pl, t3) \<leftarrow> Peel fuel c t2 nrl;
                 (nrl', t4) \<leftarrow> unhookFork t3 pl;
                 (case nrl' of
                    Fork3 nrla nrlpin nrlh' nrll nrlr nrlm \<Rightarrow> do {
                      nrllh \<leftarrow> getheight nrll;
                      nmax \<leftarrow> getmax nrll;
                      let nh = 1 + maxu32 lHeight nrllh;
                      nrlrh \<leftarrow> getheight nrlr;
                      let nrh' = 1 + maxu32 nrlrh nrrh;
                      Some (Fork3 nrla nrlpin (1 + maxu32 nh nrh')
                              (Fork3 None pin nh l nrll nmax)
                              (Fork3 nra nrpin nrh' nrlr nrr nrm) nrm, t4)
                    }
                  | _ \<Rightarrow> None)
               }
             }
           | _ \<Rightarrow> None)
        } else Some (Fork3 None pin h l r m, t))
     else if 1 < lHeight - rHeight then do {
       (pl, t1) \<leftarrow> Peel fuel c t l;
       (nl, t2) \<leftarrow> unhookFork t1 pl;
       (case nl of
          Fork3 nla nlpin nlh nll nlr nlm \<Rightarrow> do {
            nllh \<leftarrow> getheight nll;
            nlrh \<leftarrow> getheight nlr;
            if nlrh \<le> nllh then do {
              let nh = 1 + maxu32 nlrh rHeight;
              Some (Fork3 nla nlpin (1 + maxu32 nllh nh) nll (Fork3 None pin nh nlr r m)
                      (if compare key' m = 1 then key' else m), t2)
            } else do {
              (pr, t3) \<leftarrow> Peel fuel c t2 nlr;
              (nlr', t4) \<leftarrow> unhookFork t3 pr;
              (case nlr' of
                 Fork3 nlra nlrpin nlrh' nlrl nlrr nlrm \<Rightarrow> do {
                   nlrrh \<leftarrow> getheight nlrr;
                   let nh = 1 + maxu32 nlrrh rHeight;
                   nlrlh \<leftarrow> getheight nlrl;
                   let nlh' = 1 + maxu32 nllh nlrlh;
                   nlmax \<leftarrow> getmax nlrl;
                   Some (Fork3 nlra nlrpin (1 + maxu32 nlh' nh)
                           (Fork3 nla nlpin nlh' nll nlrl nlmax)
                           (Fork3 None pin nh nlrr r m) m, t4)
                 }
               | _ \<Rightarrow> None)
            }
          }
        | _ \<Rightarrow> None)
     } else Some (Fork3 None pin h l r m, t)
   }"

lemma size_set_arrow [simp]: "size (set_arrow a r) = size r"
  by (cases r) simp_all

lemma unhookFork_size:
  "unhookFork t f = Some (Fork3 a' pin' h' l' r' m', t') \<Longrightarrow>
     \<exists>a pin h l r m. f = Fork3 a pin h l r m \<and> size l' = size l \<and> size r' = size r"
  by (cases "(t, f)" rule: unhookFork.cases)
     (auto simp: moveArrowOverFork_def Let_def split: Option.bind_splits)

function insert3 :: "nat \<Rightarrow> consts3 \<Rightarrow> avl3 \<Rightarrow> ref3 \<Rightarrow> bytes \<Rightarrow> bytes \<Rightarrow> (ref3 \<times> avl3) option" where
  "insert3 n c t Nil3 key' value' =
     Some (Leaf3 None 0 key' value' 0 (of_nat (length value')), t)"
| "insert3 0 c t (Arrow3 a pid h m) key' value' = None"
| "insert3 (Suc n) c t (Arrow3 a pid h m) key' value' = do {
     (pt, t1) \<leftarrow> Peel (Suc n) c t (Arrow3 a pid h m);
     insert3 n c t1 pt key' value'
   }"
| "insert3 n c t (Leaf3 a pin k v vid vl) key' value' =
     (let cmp = compare key' k
      in if cmp = 0 then do {
           t1 \<leftarrow> (case a of None \<Rightarrow> Some t | Some p \<Rightarrow> moveArrowOverLeaf t p k v vid);
           Some (Leaf3 None pin k value' 0 (of_nat (length value')), freeValueId vid t1)
         }
         else if cmp = - 1
         then Some (Fork3 None 0 2 (Leaf3 None 0 key' value' 0 (of_nat (length value')))
                      (Leaf3 a pin k v vid vl) k, t)
         else if cmp = 1
         then Some (Fork3 None 0 2 (Leaf3 a pin k v vid vl)
                      (Leaf3 None 0 key' value' 0 (of_nat (length value'))) key', t)
         else None)"
| "insert3 n c t (Fork3 a pin h l r m) key' value' = do {
     lm \<leftarrow> getmax l;
     let cmp = compare key' lm;
     (f1, t1) \<leftarrow> unhookFork t (Fork3 a pin h l r m);
     (case f1 of
        Fork3 a1 pin1 h1 l1 r1 m1 \<Rightarrow>
          if cmp = 0 \<or> cmp = - 1 then do {
            (l2, t2) \<leftarrow> insert3 n c t1 l1 key' value';
            insertBalance n c t2 pin1 l2 r1 m1 key'
          }
          else if cmp = 1 then do {
            (r2, t2) \<leftarrow> insert3 n c t1 r1 key' value';
            m2 \<leftarrow> getmax r2;
            insertBalance n c t2 pin1 l1 r2 m2 key'
          }
          else insertBalance n c t1 pin1 l1 r1 m1 key'
      | _ \<Rightarrow> None)
   }"
  by pat_completeness auto
termination
  by (relation "measures [\<lambda>(n, c, t, r, k, v). n, \<lambda>(n, c, t, r, k, v). size r]")
     (auto dest!: unhookFork_size)

definition Insert :: "nat \<Rightarrow> consts3 \<Rightarrow> avl3 \<Rightarrow> bytes \<Rightarrow> bytes \<Rightarrow> (bool \<times> avl3) option" where
  "Insert n c t key' value' = do {
     sr \<leftarrow> Insert_scan n c t (root t) key' value';
     (case sr of
        ReturnFalse \<Rightarrow> Some (False, t)
      | Break inserted \<Rightarrow> do {
          (r, t1) \<leftarrow> insert3 n c t (root t) key' value';
          Some (inserted, t1\<lparr>root := r\<rparr>)
        })
   }"


subsection \<open>Delete\<close>

text \<open>The pre-scan of \<open>Delete\<close>: \<open>True\<close> when it leaves the loop at a leaf with the key,
  \<open>False\<close> for \<open>return false\<close>.\<close>

fun Delete_scan :: "nat \<Rightarrow> consts3 \<Rightarrow> avl3 \<Rightarrow> ref3 \<Rightarrow> bytes \<Rightarrow> bool option" where
  "Delete_scan n c t Nil3 key' = Some False"
| "Delete_scan n c t (Leaf3 a pin k v vid vl) key' = Some (key' = k)"
| "Delete_scan n c t (Fork3 a pin h l r m) key' = do {
     lm \<leftarrow> getmax l;
     let cmp = compare key' lm;
     if cmp = 0 \<or> cmp = - 1 then Delete_scan n c t l key'
     else if cmp = 1 then Delete_scan n c t r key'
     else None
   }"
| "Delete_scan 0 c t (Arrow3 a pid h m) key' = None"
| "Delete_scan (Suc n) c t (Arrow3 a pid h m) key' = do {
     (cur, rel) \<leftarrow> deserialisePage c t pid (Some m) h;
     if cur = Nil3 then None
     else do {
       ch \<leftarrow> getheight cur;
       if ch \<noteq> h then None else Delete_scan n c t cur key'
     }
   }"

text \<open>The rotations of \<open>delete\<close>, as \<open>insertBalance\<close> for \<open>insert\<close>.\<close>

definition deleteBalance ::
  "nat \<Rightarrow> consts3 \<Rightarrow> avl3 \<Rightarrow> PageID \<Rightarrow> ref3 \<Rightarrow> ref3 \<Rightarrow> bytes \<Rightarrow> (ref3 \<times> avl3) option" where
  "deleteBalance fuel c t pin l r m = do {
     lHeight \<leftarrow> getheight l;
     rHeight \<leftarrow> getheight r;
     let h = 1 + maxu32 lHeight rHeight;
     if lHeight < rHeight then
       (if 1 < rHeight - lHeight then do {
          (pr, t1) \<leftarrow> Peel fuel c t r;
          (nr, t2) \<leftarrow> unhookFork t1 pr;
          (case nr of
             Fork3 nra nrpin nrh nrl nrr nrm \<Rightarrow> do {
               nrrh \<leftarrow> getheight nrr;
               nrlh \<leftarrow> getheight nrl;
               if nrlh \<le> nrrh then do {
                 nmax \<leftarrow> getmax nrl;
                 let nh = 1 + maxu32 lHeight nrlh;
                 Some (Fork3 nra nrpin (1 + maxu32 nh nrlh) (Fork3 None pin nh l nrl nmax) nrr nrm, t2)
               } else do {
                 (pl, t3) \<leftarrow> Peel fuel c t2 nrl;
                 (nrl', t4) \<leftarrow> unhookFork t3 pl;
                 (case nrl' of
                    Fork3 nrla nrlpin nrlh' nrll nrlr nrlm \<Rightarrow> do {
                      nrllh \<leftarrow> getheight nrll;
                      nmax \<leftarrow> getmax nrll;
                      let nh = 1 + maxu32 lHeight nrllh;
                      nrlrh \<leftarrow> getheight nrlr;
                      let nrh' = 1 + maxu32 nrlrh nrrh;
                      Some (Fork3 nrla nrlpin (1 + maxu32 nh nrh')
                              (Fork3 None pin nh l nrll nmax)
                              (Fork3 nra nrpin nrh' nrlr nrr nrm) nrm, t4)
                    }
                  | _ \<Rightarrow> None)
               }
             }
           | _ \<Rightarrow> None)
        } else Some (Fork3 None pin h l r m, t))
     else if 1 < lHeight - rHeight then do {
       (pl, t1) \<leftarrow> Peel fuel c t l;
       (nl, t2) \<leftarrow> unhookFork t1 pl;
       (case nl of
          Fork3 nla nlpin nlh nll nlr nlm \<Rightarrow> do {
            nllh \<leftarrow> getheight nll;
            nlrh \<leftarrow> getheight nlr;
            if nlrh \<le> nllh then do {
              let nh = 1 + maxu32 nlrh rHeight;
              Some (Fork3 nla nlpin (1 + maxu32 nllh nh) nll (Fork3 None pin nh nlr r m) m, t2)
            } else do {
              (pr, t3) \<leftarrow> Peel fuel c t2 nlr;
              (nlr', t4) \<leftarrow> unhookFork t3 pr;
              (case nlr' of
                 Fork3 nlra nlrpin nlrh' nlrl nlrr nlrm \<Rightarrow> do {
                   nlrrh \<leftarrow> getheight nlrr;
                   let nh = 1 + maxu32 nlrrh rHeight;
                   nlrlh \<leftarrow> getheight nlrl;
                   let nlh' = 1 + maxu32 nllh nlrlh;
                   nlmax \<leftarrow> getmax nlrl;
                   Some (Fork3 nlra nlrpin (1 + maxu32 nlh' nh)
                           (Fork3 nla nlpin nlh' nll nlrl nlmax)
                           (Fork3 None pin nh nlrr r m) m, t4)
                 }
               | _ \<Rightarrow> None)
            }
          }
        | _ \<Rightarrow> None)
     } else Some (Fork3 None pin h l r m, t)
   }"

text \<open>The special case of \<open>delete\<close> for a fork of two leaves: \<open>Peel\<close> both children, assert
  that they are leaves, release the value of the leaf that goes and return the other.\<close>

definition deleteLeafLeaf ::
  "nat \<Rightarrow> consts3 \<Rightarrow> avl3 \<Rightarrow> ref3 \<Rightarrow> ref3 \<Rightarrow> int \<Rightarrow> (ref3 \<times> avl3) option" where
  "deleteLeafLeaf fuel c t l r cmp = do {
     (nl, t1) \<leftarrow> Peel fuel c t l;
     (case nl of
        Leaf3 la lpin lk lv lvid lvl \<Rightarrow> do {
          (nr, t2) \<leftarrow> Peel fuel c t1 r;
          (case nr of
             Leaf3 ra rpin rk rv rvid rvl \<Rightarrow>
               if cmp = 0 \<or> cmp = - 1
               then Some (nr, if la = None then freeValueId lvid t2 else t2)
               else if cmp = 1
               then Some (nl, if ra = None then freeValueId rvid t2 else t2)
               else None
           | _ \<Rightarrow> None)
        }
      | _ \<Rightarrow> None)
   }"

function delete3 :: "nat \<Rightarrow> consts3 \<Rightarrow> avl3 \<Rightarrow> ref3 \<Rightarrow> bytes \<Rightarrow> (ref3 \<times> avl3) option" where
  "delete3 n c t Nil3 key' = None"
| "delete3 0 c t (Arrow3 a pid h m) key' = None"
| "delete3 (Suc n) c t (Arrow3 a pid h m) key' = do {
     (pt, t1) \<leftarrow> Peel (Suc n) c t (Arrow3 a pid h m);
     delete3 n c t1 pt key'
   }"
| "delete3 n c t (Leaf3 a pin k v vid vl) key' =
     Some (Nil3, if a = None then freeValueId vid t else t)"
| "delete3 n c t (Fork3 a pin h l r m) key' = do {
     lm \<leftarrow> getmax l;
     let cmp = compare key' lm;
     (f1, t1) \<leftarrow> unhookFork t (Fork3 a pin h l r m);
     (case f1 of
        Fork3 a1 pin1 h1 l1 r1 m1 \<Rightarrow> do {
          lleaf \<leftarrow> IsLeaf n c t1 l1;
          rleaf \<leftarrow> (if lleaf then IsLeaf n c t1 r1 else Some False);
          if lleaf \<and> rleaf then deleteLeafLeaf n c t1 l1 r1 cmp
          else if cmp = 0 \<or> cmp = - 1 then do {
            (l2, t2) \<leftarrow> delete3 n c t1 l1 key';
            if l2 = Nil3 then Some (r1, t2)
            else deleteBalance n c t2 pin1 l2 r1 m1
          }
          else if cmp = 1 then do {
            (r2, t2) \<leftarrow> delete3 n c t1 r1 key';
            if r2 = Nil3 then Some (l1, t2)
            else do {
              m2 \<leftarrow> getmax r2;
              deleteBalance n c t2 pin1 l1 r2 m2
            }
          }
          else deleteBalance n c t1 pin1 l1 r1 m1
        }
      | _ \<Rightarrow> None)
   }"
  by pat_completeness auto
termination
  by (relation "measures [\<lambda>(n, c, t, r, k). n, \<lambda>(n, c, t, r, k). size r]")
     (auto dest!: unhookFork_size)

definition Delete :: "nat \<Rightarrow> consts3 \<Rightarrow> avl3 \<Rightarrow> bytes \<Rightarrow> (bool \<times> avl3) option" where
  "Delete n c t key' = do {
     found \<leftarrow> Delete_scan n c t (root t) key';
     if found then do {
       (r, t1) \<leftarrow> delete3 n c t (root t) key';
       Some (True, t1\<lparr>root := r\<rparr>)
     } else Some (False, t)
   }"


subsection \<open>Reading the version file\<close>

text \<open>
  The loop of \<open>UseFiles\<close> that reads the version file, a sequence of bytes here.
  \<open>ReadAt\<close> is \<open>os.File.ReadAt\<close>: it fills the buffer from the offset as far as the file
  goes, leaves the rest of the buffer as it was and returns the number of bytes read;
  a negative offset is an error with no byte read. The offset
  \<open>int64(t.currentVersion)*int64(8)\<close> is a signed 64-bit product. \<open>verdata\<close> is the
  eight-byte buffer, which the loop reuses.
\<close>

definition ReadAt :: "bytes \<Rightarrow> bytes \<Rightarrow> int \<Rightarrow> nat \<times> bytes" where
  "ReadAt file buf off =
     (if off < 0 then (0, buf)
      else (let chunk = take (length buf) (drop (nat off) file)
            in (length chunk, chunk @ drop (length chunk) buf)))"

lemma ReadAt_pos:
  "ReadAt file buf off = (n, buf') \<Longrightarrow> 0 < n \<Longrightarrow> 0 \<le> off \<and> nat off < length file"
  by (auto simp: ReadAt_def Let_def split: if_splits)

lemma sint_step:
  fixes x :: "64 word"
  assumes "0 \<le> sint x"
  shows "sint (x + 8) = sint x + 8 \<or> sint (x + 8) < 0"
proof (cases "sint x + 8 < 2 ^ 63")
  case True
  have "sint (x + 8) = signed_take_bit 63 (sint x + 8)"
    by (simp add: sint_word_ariths)
  also have "\<dots> = sint x + 8"
    using True assms by (intro signed_take_bit_int_eq_self) auto
  finally show ?thesis by simp
next
  case False
  have b: "sint x < 2 ^ 63" using sint_lt [of x] by simp
  have "sint (x + 8) = signed_take_bit 63 (sint x + 8)"
    by (simp add: sint_word_ariths)
  also have "\<dots> \<le> sint x + 8 - 2 ^ Suc 63"
    using False by (intro signed_take_bit_int_less_eq) auto
  finally show ?thesis using b by simp
qed

lemma readVersions_decr:
  fixes x :: "64 word"
  assumes "(n, vd') = ReadAt f vd (sint x)" and "0 < n"
  shows "(0 \<le> sint (x + 8) \<longrightarrow> length f - nat (sint (x + 8)) < length f - nat (sint x))
         \<and> (\<not> 0 \<le> sint (x + 8) \<longrightarrow> nat (sint x) < length f) \<and> 0 \<le> sint x"
proof -
  from ReadAt_pos [OF assms(1) [symmetric] assms(2)]
  have p: "0 \<le> sint x" "nat (sint x) < length f"
    by auto
  from sint_step [OF p(1)] p show ?thesis
    by auto
qed

function readVersions :: "bytes \<Rightarrow> bytes \<Rightarrow> PageID \<Rightarrow> avl3 \<Rightarrow> PageID \<times> avl3" where
  "readVersions verFile verdata lastPageID t =
     (case ReadAt verFile verdata (sint (currentVersion t * 8)) of
        (n, verdata') \<Rightarrow>
          if 0 < n
          then readVersions verFile verdata' (be_word verdata')
                 (t\<lparr>versions := (versions t)(currentVersion t \<mapsto> be_word verdata'),
                    currentVersion := currentVersion t + 1\<rparr>)
          else (lastPageID, t))"
  by pat_completeness auto
termination
  by (relation "measure (\<lambda>(f, vd, l, t). if 0 \<le> sint (currentVersion t * 8)
                     then length f - nat (sint (currentVersion t * 8)) else 0)")
     (simp_all add: readVersions_decr)

text \<open>The loop as \<open>UseFiles\<close> starts it: \<open>var verdata [8]byte; var lastPageID PageID\<close>.\<close>

definition UseFiles_versions :: "bytes \<Rightarrow> avl3 \<Rightarrow> PageID \<times> avl3" where
  "UseFiles_versions verFile t = readVersions verFile (replicate 8 0) 0 t"


subsection \<open>Checks of the AVL shape\<close>

fun heightsCorrect :: "ref3 \<Rightarrow> (nat \<times> bool) option" where
  "heightsCorrect Nil3 = None"
| "heightsCorrect (Leaf3 a pin k v vid vl) = Some (1, True)"
| "heightsCorrect (Fork3 a pin h l r m) = do {
     (leftHeight, leftCorrect) \<leftarrow> heightsCorrect l;
     (rightHeight, rightCorrect) \<leftarrow> heightsCorrect r;
     Some (1 + maxu32 leftHeight rightHeight,
           leftCorrect \<and> rightCorrect \<and> 1 + maxu32 leftHeight rightHeight = h)
   }"
| "heightsCorrect (Arrow3 a pid h m) = Some (h, True)"

fun balanceCorrect :: "ref3 \<Rightarrow> bool option" where
  "balanceCorrect Nil3 = None"
| "balanceCorrect (Leaf3 a pin k v vid vl) = Some True"
| "balanceCorrect (Fork3 a pin h l r m) = do {
     lHeight \<leftarrow> getheight l;
     rHeight \<leftarrow> getheight r;
     let balanced = (if lHeight \<le> rHeight then rHeight - lHeight < 2 else lHeight - rHeight < 2);
     lb \<leftarrow> (if balanced then balanceCorrect l else Some False);
     rb \<leftarrow> (if balanced \<and> lb then balanceCorrect r else Some False);
     Some (balanced \<and> lb \<and> rb)
   }"
| "balanceCorrect (Arrow3 a pid h m) = Some True"

section \<open>In-memory trees and the reference map\<close>

text \<open>
  The notions the theorems are stated with. \<open>keys\<close> and \<open>lookup\<close> are the keys and the
  key-value pairs at the leaves of a tree in memory (arrows contribute nothing), \<open>ht\<close> and
  \<open>gmax\<close> are \<open>getheight\<close> and \<open>getmax\<close> as total functions.
\<close>

fun keys :: "ref3 \<Rightarrow> bytes set" where
  "keys (Leaf3 a pin k v vid vl) = {k}"
| "keys (Fork3 a pin h l r m) = keys l \<union> keys r"
| "keys _ = {}"

fun lookup :: "ref3 \<Rightarrow> bytes \<rightharpoonup> bytes" where
  "lookup (Leaf3 a pin k v vid vl) = [k \<mapsto> v]"
| "lookup (Fork3 a pin h l r m) = lookup l ++ lookup r"
| "lookup _ = Map.empty"

fun ht :: "ref3 \<Rightarrow> nat" where
  "ht (Leaf3 a pin k v vid vl) = 1"
| "ht (Fork3 a pin h l r m) = h"
| "ht (Arrow3 a pid h m) = h"
| "ht Nil3 = 0"

fun gmax :: "ref3 \<Rightarrow> bytes" where
  "gmax (Leaf3 a pin k v vid vl) = k"
| "gmax (Fork3 a pin h l r m) = m"
| "gmax (Arrow3 a pid h m) = m"
| "gmax Nil3 = []"

text \<open>
  \<open>avlp\<close> is the shape of a tree that \<open>Insert\<close> and \<open>Delete\<close> build in memory: leaves and
  forks only, no node tied to the previous version, values inline; every fork has the
  maximum of its right subtree as \<open>max\<close>, the keys of the right subtree above the maximum
  of the left one, the height \<open>1 + max\<close> of its children's heights, and children whose
  heights differ by at most one.
\<close>

fun avlp :: "ref3 \<Rightarrow> bool" where
  "avlp (Leaf3 a pin k v vid vl) = (a = None \<and> vid = 0)"
| "avlp (Fork3 a pin h l r m) =
     (a = None \<and> avlp l \<and> avlp r \<and> m = gmax r \<and> (\<forall>x \<in> keys r. gmax l < x)
      \<and> h = 1 + max (ht l) (ht r) \<and> ht l \<le> ht r + 1 \<and> ht r \<le> ht l + 1)"
| "avlp _ = False"

definition avlp_root :: "ref3 \<Rightarrow> bool" where
  "avlp_root r = (r = Nil3 \<or> avlp r)"

text \<open>The rotations as functions on trees of that shape, used to reason about
  \<open>insertBalance\<close> and \<open>deleteBalance\<close>.\<close>

definition rotLeft :: "PageID \<Rightarrow> ref3 \<Rightarrow> ref3 \<Rightarrow> ref3" where
  "rotLeft pin l r =
     (case r of
        Fork3 nra nrpin nrh nrl nrr nrm \<Rightarrow>
          if ht nrl \<le> ht nrr
          then (let nh = 1 + max (ht l) (ht nrl)
                in Fork3 nra nrpin (1 + max nh (ht nrr)) (Fork3 None pin nh l nrl (gmax nrl)) nrr nrm)
          else (case nrl of
                  Fork3 nrla nrlpin nrlh nrll nrlr nrlm \<Rightarrow>
                    (let nh = 1 + max (ht l) (ht nrll); nrh' = 1 + max (ht nrlr) (ht nrr)
                     in Fork3 nrla nrlpin (1 + max nh nrh')
                          (Fork3 None pin nh l nrll (gmax nrll))
                          (Fork3 nra nrpin nrh' nrlr nrr nrm) nrm)
                | _ \<Rightarrow> Nil3)
      | _ \<Rightarrow> Nil3)"

definition rotRight :: "PageID \<Rightarrow> ref3 \<Rightarrow> ref3 \<Rightarrow> bytes \<Rightarrow> ref3" where
  "rotRight pin l r m =
     (case l of
        Fork3 nla nlpin nlh nll nlr nlm \<Rightarrow>
          if ht nlr \<le> ht nll
          then (let nh = 1 + max (ht nlr) (ht r)
                in Fork3 nla nlpin (1 + max (ht nll) nh) nll (Fork3 None pin nh nlr r m) m)
          else (case nlr of
                  Fork3 nlra nlrpin nlrh nlrl nlrr nlrm \<Rightarrow>
                    (let nh = 1 + max (ht nlrr) (ht r); nlh' = 1 + max (ht nll) (ht nlrl)
                     in Fork3 nlra nlrpin (1 + max nlh' nh)
                          (Fork3 nla nlpin nlh' nll nlrl (gmax nlrl))
                          (Fork3 None pin nh nlrr r m) m)
                | _ \<Rightarrow> Nil3)
      | _ \<Rightarrow> Nil3)"

definition rebalance :: "PageID \<Rightarrow> ref3 \<Rightarrow> ref3 \<Rightarrow> bytes \<Rightarrow> ref3" where
  "rebalance pin l r m =
     (if ht l + 1 < ht r then rotLeft pin l r
      else if ht r + 1 < ht l then rotRight pin l r m
      else Fork3 None pin (1 + max (ht l) (ht r)) l r m)"

definition pre_bal :: "ref3 \<Rightarrow> ref3 \<Rightarrow> bool" where
  "pre_bal l r = (avlp l \<and> avlp r \<and> (\<forall>x \<in> keys r. gmax l < x) \<and> ht l \<le> ht r + 2 \<and> ht r \<le> ht l + 2)"

text \<open>
  Sequences of \<open>Insert\<close> and \<open>Delete\<close> on the engine, and the same operations on a
  reference map \<open>M\<close> from keys to values; \<open>ref_get M k\<close> is \<open>(M[k], true)\<close> for a key of
  \<open>M\<close> and \<open>(nil, false)\<close> otherwise.
\<close>

datatype operation = OpInsert bytes bytes | OpDelete bytes

fun apply_op :: "nat \<Rightarrow> consts3 \<Rightarrow> avl3 \<Rightarrow> operation \<Rightarrow> avl3 option" where
  "apply_op n c t (OpInsert k v) = map_option snd (Insert n c t k v)"
| "apply_op n c t (OpDelete k) = map_option snd (Delete n c t k)"

fun run_ops :: "nat \<Rightarrow> consts3 \<Rightarrow> avl3 \<Rightarrow> operation list \<Rightarrow> avl3 option" where
  "run_ops n c t [] = Some t"
| "run_ops n c t (x # xs) = Option.bind (apply_op n c t x) (\<lambda>t'. run_ops n c t' xs)"

fun ref_apply :: "(bytes \<rightharpoonup> bytes) \<Rightarrow> operation \<Rightarrow> (bytes \<rightharpoonup> bytes)" where
  "ref_apply M (OpInsert k v) = M(k \<mapsto> v)"
| "ref_apply M (OpDelete k) = M(k := None)"

definition ref_get :: "(bytes \<rightharpoonup> bytes) \<Rightarrow> bytes \<Rightarrow> bytes \<times> bool" where
  "ref_get M k = (case M k of Some v \<Rightarrow> (v, True) | None \<Rightarrow> ([], False))"

text \<open>
  The notions for the first pass of the serialiser. Two pins are \<open>compatible\<close> when
  either id is zero or they are identical; \<open>zero_ids\<close> counts the zero ids among the pins
  of the left child, the right child and the fork. \<open>sizeOf\<close> is the estimated page size
  of a subtree, \<open>fitsWithBoth\<close> the test of the first pass that a fork and both children
  share a page. \<open>committedAs c t child m x t1\<close>: from the engine state \<open>t\<close> the child is
  written as a page of its own by \<open>commitPage\<close>, which leaves the state \<open>t1\<close> with the page
  in \<open>pageMap\<close>, and \<open>x\<close> is the new arrow to that page with the height and the \<open>max\<close> of
  the child; a child that is an arrow stands for its page already, stays, and the state
  is unchanged.
\<close>

definition compatible :: "PinnedPageID \<Rightarrow> PinnedPageID \<Rightarrow> bool" where
  "compatible p q = (pin_id p = 0 \<or> pin_id q = 0 \<or> p = q)"

definition zero_ids :: "PinnedPageID \<Rightarrow> PinnedPageID \<Rightarrow> PinnedPageID \<Rightarrow> nat" where
  "zero_ids l r f = length (filter (\<lambda>p. pin_id p = 0) [l, r, f])"





text \<open>
  \<open>has_leaf c t r k\<close>: the tree \<open>r\<close>, with the pages its arrows lead to, has a leaf with
  the key \<open>k\<close>. \<open>loaded r\<close>: \<open>r\<close> is a tree of leaves and forks, all in memory.
\<close>

inductive has_leaf :: "consts3 \<Rightarrow> avl3 \<Rightarrow> ref3 \<Rightarrow> bytes \<Rightarrow> bool" for c t where
  has_leaf_Leaf: "has_leaf c t (Leaf3 a pin k v vid vl) k"
| has_leaf_L: "has_leaf c t l k \<Longrightarrow> has_leaf c t (Fork3 a pin h l r m) k"
| has_leaf_R: "has_leaf c t r k \<Longrightarrow> has_leaf c t (Fork3 a pin h l r m) k"
| has_leaf_Arrow: "deserialisePage c t pid (Some m) h = Some (cur, rel) \<Longrightarrow> has_leaf c t cur k
     \<Longrightarrow> has_leaf c t (Arrow3 a pid h m) k"

fun loaded :: "ref3 \<Rightarrow> bool" where
  "loaded (Leaf3 a pin k v vid vl) = True"
| "loaded (Fork3 a pin h l r m) = (loaded l \<and> loaded r)"
| "loaded _ = False"


text \<open>
  The engine after \<open>Insert("a", "1")\<close>, \<open>Commit\<close> and \<open>Commit\<close> on a fresh engine, and the
  engine after the first \<open>Commit\<close> only.
\<close>

definition one_commit :: "consts3 \<Rightarrow> avl3 option" where
  "one_commit c = do {
     (b, t1) \<leftarrow> Insert 0 c NewAvl3 [97] [49];
     (n1, t2) \<leftarrow> Commit c t1;
     Some t2
   }"

definition two_commits :: "consts3 \<Rightarrow> avl3 option" where
  "two_commits c = do {
     t2 \<leftarrow> one_commit c;
     (n2, t3) \<leftarrow> Commit c t2;
     Some t3
   }"

section \<open>Properties of the in-memory tree algorithms\<close>

lemma compare_eq: "compare a b = (if a < b then - 1 else if a = b then 0 else 1)"
  by (induction a b rule: compare.induct) auto

lemma compare_le: "(compare a b = 0 \<or> compare a b = - 1) \<longleftrightarrow> a \<le> b"
  by (auto simp: compare_eq)

lemma compare_gt: "compare a b = 1 \<longleftrightarrow> \<not> a \<le> b"
  by (auto simp: compare_eq)

lemmas compare_simps = compare_le compare_gt

lemma maxu32_eq [simp]: "maxu32 a b = max a b"
  by (simp add: maxu32_def max_def)

lemma avlp_getheight [simp]: "avlp r \<Longrightarrow> getheight r = Some (ht r)"
  by (cases r) simp_all

lemma avlp_getmax [simp]: "avlp r \<Longrightarrow> getmax r = Some (gmax r)"
  by (cases r) simp_all

lemma avlp_keys: "avlp r \<Longrightarrow> gmax r \<in> keys r \<and> (\<forall>x \<in> keys r. x \<le> gmax r)"
proof (induction r)
  case (Fork3 a pin h l r m)
  then have l: "gmax l \<in> keys l" "\<forall>x \<in> keys l. x \<le> gmax l"
    and r: "gmax r \<in> keys r" "\<forall>x \<in> keys r. x \<le> gmax r"
    and o: "\<forall>x \<in> keys r. gmax l < x" and m: "m = gmax r"
    by auto
  from l o r(1) have "\<forall>x \<in> keys l. x \<le> gmax r"
    by (meson less_le_trans less_imp_le order_trans)
  with r m show ?case by auto
qed simp_all

lemma avlp_gmax_in: "avlp r \<Longrightarrow> gmax r \<in> keys r"
  by (simp add: avlp_keys)

lemma avlp_keys_le: "avlp r \<Longrightarrow> x \<in> keys r \<Longrightarrow> x \<le> gmax r"
  by (simp add: avlp_keys)

lemma avlp_ht_pos: "avlp r \<Longrightarrow> 1 \<le> ht r"
  by (cases r) auto

lemma avlp_ht_fork: "avlp r \<Longrightarrow> 2 \<le> ht r \<Longrightarrow> \<exists>pin l' r'. r = Fork3 None pin (ht r) l' r' (gmax r)"
  by (cases r) simp_all

lemma avlp_gmax_left: "avlp (Fork3 a pin h l r m) \<Longrightarrow> gmax l < m"
  using avlp_gmax_in [of r] by auto

lemma dom_lookup: "avlp r \<Longrightarrow> dom (lookup r) = keys r"
  by (induction r) auto

lemma avlp_Peel [simp]: "avlp r \<Longrightarrow> Peel n c t r = Some (r, t)"
  by (cases r) simp_all

lemma avlp_unhookFork [simp]: "avlp (Fork3 a pin h l r m) \<Longrightarrow> unhookFork t (Fork3 a pin h l r m) = Some (Fork3 a pin h l r m, t)"
  by simp

lemma avlp_IsLeaf: "avlp r \<Longrightarrow> IsLeaf n c t r = Some (ht r = 1)"
proof (cases r)
  case (Fork3 a pin h l r' m)
  assume "avlp r"
  with Fork3 avlp_ht_pos [of l] show ?thesis by auto
qed simp_all

lemma rotLeft_avlp:
  assumes "pre_bal l r" "ht r = ht l + 2"
  shows "avlp (rotLeft pin l r) \<and> keys (rotLeft pin l r) = keys l \<union> keys r
         \<and> lookup (rotLeft pin l r) = lookup l ++ lookup r
         \<and> gmax (rotLeft pin l r) = gmax r
         \<and> (ht (rotLeft pin l r) = ht r \<or> ht (rotLeft pin l r) = ht r + 1)"
proof -
  from assms have wl: "avlp l" and wr: "avlp r" and o: "\<forall>x \<in> keys r. gmax l < x"
    by (auto simp: pre_bal_def)
  from avlp_ht_pos [OF wl] assms(2) have "2 \<le> ht r" by simp
  from avlp_ht_fork [OF wr this] obtain nrpin nrl nrr where
    r: "r = Fork3 None nrpin (ht r) nrl nrr (gmax r)" by blast
  from wr r have wnrl: "avlp nrl" and wnrr: "avlp nrr" and onr: "\<forall>x \<in> keys nrr. gmax nrl < x"
    and hr: "ht r = 1 + max (ht nrl) (ht nrr)" "ht nrl \<le> ht nrr + 1" "ht nrr \<le> ht nrl + 1"
    and mr: "gmax r = gmax nrr"
    by (metis avlp.simps(2))+
  show ?thesis
  proof (cases "ht nrl \<le> ht nrr")
    case True
    have "rotLeft pin l r = Fork3 None nrpin (1 + max (1 + max (ht l) (ht nrl)) (ht nrr)) (Fork3 None pin (1 + max (ht l) (ht nrl)) l nrl (gmax nrl)) nrr (gmax r)"
      using True by (subst r) (simp add: rotLeft_def Let_def)
    moreover have "keys r = keys nrl \<union> keys nrr" "lookup r = lookup nrl ++ lookup nrr"
      by (subst r, simp)+
    ultimately show ?thesis
      using True wl wnrl wnrr onr hr mr o assms(2)
      by (auto simp: Un_assoc)
  next
    case False
    then have "2 \<le> ht nrl" using avlp_ht_pos [OF wnrr] by simp
    from avlp_ht_fork [OF wnrl this] obtain nrlpin nrll nrlr where
      nrl: "nrl = Fork3 None nrlpin (ht nrl) nrll nrlr (gmax nrl)" by blast
    from wnrl nrl have wnrll: "avlp nrll" and wnrlr: "avlp nrlr" and onrl: "\<forall>x \<in> keys nrlr. gmax nrll < x"
      and hnrl: "ht nrl = 1 + max (ht nrll) (ht nrlr)" "ht nrll \<le> ht nrlr + 1" "ht nrlr \<le> ht nrll + 1"
      and mnrl: "gmax nrl = gmax nrlr"
      by (metis avlp.simps(2))+
    have e: "rotLeft pin l r = Fork3 None nrlpin (1 + max (1 + max (ht l) (ht nrll)) (1 + max (ht nrlr) (ht nrr)))
               (Fork3 None pin (1 + max (ht l) (ht nrll)) l nrll (gmax nrll))
               (Fork3 None nrpin (1 + max (ht nrlr) (ht nrr)) nrlr nrr (gmax r)) (gmax r)"
      using False by (subst r, subst nrl) (simp add: rotLeft_def Let_def)
    have k: "keys r = keys nrll \<union> keys nrlr \<union> keys nrr" "lookup r = (lookup nrll ++ lookup nrlr) ++ lookup nrr"
      by (subst r, subst nrl, simp)+
    have k2: "keys nrl = keys nrll \<union> keys nrlr"
      by (subst nrl) simp
    have "\<forall>x \<in> keys nrr. gmax nrlr < x" using onr mnrl by simp
    moreover have "gmax nrll < gmax nrl" using avlp_gmax_left [of None nrlpin "ht nrl" nrll nrlr "gmax nrl"] wnrl nrl by simp
    then have "\<forall>x \<in> keys nrr. gmax nrll < x" using onr by (meson less_trans)
    moreover have "\<forall>x \<in> keys nrll. gmax l < x" using o k by auto
    moreover have "\<forall>x \<in> keys nrlr. gmax l < x" using o k by auto
    ultimately show ?thesis
      using False wl wnrll wnrlr wnrr onrl hr hnrl mr o assms(2) e k
      by (auto simp: Un_assoc)
  qed
qed

lemma rotRight_avlp:
  assumes "pre_bal l r" "ht l = ht r + 2"
  shows "avlp (rotRight pin l r (gmax r)) \<and> keys (rotRight pin l r (gmax r)) = keys l \<union> keys r
         \<and> lookup (rotRight pin l r (gmax r)) = lookup l ++ lookup r
         \<and> gmax (rotRight pin l r (gmax r)) = gmax r
         \<and> (ht (rotRight pin l r (gmax r)) = ht l \<or> ht (rotRight pin l r (gmax r)) = ht l + 1)"
proof -
  from assms have wl: "avlp l" and wr: "avlp r" and o: "\<forall>x \<in> keys r. gmax l < x"
    by (auto simp: pre_bal_def)
  from avlp_ht_pos [OF wr] assms(2) have "2 \<le> ht l" by simp
  from avlp_ht_fork [OF wl this] obtain nlpin nll nlr where
    l: "l = Fork3 None nlpin (ht l) nll nlr (gmax l)" by blast
  from wl l have wnll: "avlp nll" and wnlr: "avlp nlr" and onl: "\<forall>x \<in> keys nlr. gmax nll < x"
    and hl: "ht l = 1 + max (ht nll) (ht nlr)" "ht nll \<le> ht nlr + 1" "ht nlr \<le> ht nll + 1"
    and ml: "gmax l = gmax nlr"
    by (metis avlp.simps(2))+
  have kl: "keys l = keys nll \<union> keys nlr" "lookup l = lookup nll ++ lookup nlr"
    by (subst l, simp)+
  have "gmax nll < gmax l"
    using avlp_gmax_left [of None nlpin "ht l" nll nlr "gmax l"] wl l by simp
  then have onr: "\<forall>x \<in> keys r. gmax nll < x" using o by (meson less_trans)
  show ?thesis
  proof (cases "ht nlr \<le> ht nll")
    case True
    have "rotRight pin l r (gmax r) = Fork3 None nlpin (1 + max (ht nll) (1 + max (ht nlr) (ht r))) nll
             (Fork3 None pin (1 + max (ht nlr) (ht r)) nlr r (gmax r)) (gmax r)"
      using True by (subst l) (simp add: rotRight_def Let_def)
    then show ?thesis
      using True wr wnll wnlr onl onr hl ml o assms(2) kl
      by (auto simp: Un_assoc)
  next
    case False
    then have "2 \<le> ht nlr" using avlp_ht_pos [OF wnll] by simp
    from avlp_ht_fork [OF wnlr this] obtain nlrpin nlrl nlrr where
      nlr: "nlr = Fork3 None nlrpin (ht nlr) nlrl nlrr (gmax nlr)" by blast
    from wnlr nlr have wnlrl: "avlp nlrl" and wnlrr: "avlp nlrr" and onlr: "\<forall>x \<in> keys nlrr. gmax nlrl < x"
      and hnlr: "ht nlr = 1 + max (ht nlrl) (ht nlrr)" "ht nlrl \<le> ht nlrr + 1" "ht nlrr \<le> ht nlrl + 1"
      and mnlr: "gmax nlr = gmax nlrr"
      by (metis avlp.simps(2))+
    have e: "rotRight pin l r (gmax r) = Fork3 None nlrpin (1 + max (1 + max (ht nll) (ht nlrl)) (1 + max (ht nlrr) (ht r)))
               (Fork3 None nlpin (1 + max (ht nll) (ht nlrl)) nll nlrl (gmax nlrl))
               (Fork3 None pin (1 + max (ht nlrr) (ht r)) nlrr r (gmax r)) (gmax r)"
      using False by (subst l, subst nlr) (simp add: rotRight_def Let_def)
    have k: "keys nlr = keys nlrl \<union> keys nlrr" "lookup nlr = lookup nlrl ++ lookup nlrr"
      by (subst nlr, simp)+
    have "gmax nlrl < gmax nlr"
      using avlp_gmax_left [of None nlrpin "ht nlr" nlrl nlrr "gmax nlr"] wnlr nlr by simp
    then have "\<forall>x \<in> keys r. gmax nlrl < x" using o ml by (metis less_trans)
    moreover have "\<forall>x \<in> keys r. gmax nlrr < x" using o ml mnlr by simp
    moreover have "\<forall>x \<in> keys nlrl. gmax nll < x" "\<forall>x \<in> keys nlrr. gmax nll < x" using onl k by auto
    ultimately show ?thesis
      using False wr wnll wnlrl wnlrr onlr hl hnlr assms(2) e k kl
      by (auto simp: Un_assoc)
  qed
qed

lemma rebalance_avlp:
  assumes "pre_bal l r"
  shows "avlp (rebalance pin l r (gmax r)) \<and> keys (rebalance pin l r (gmax r)) = keys l \<union> keys r
         \<and> lookup (rebalance pin l r (gmax r)) = lookup l ++ lookup r
         \<and> gmax (rebalance pin l r (gmax r)) = gmax r
         \<and> max (ht l) (ht r) \<le> ht (rebalance pin l r (gmax r))
         \<and> ht (rebalance pin l r (gmax r)) \<le> 1 + max (ht l) (ht r)
         \<and> (ht l \<le> ht r + 1 \<and> ht r \<le> ht l + 1 \<longrightarrow> ht (rebalance pin l r (gmax r)) = 1 + max (ht l) (ht r))"
proof -
  consider (L) "ht r = ht l + 2" | (R) "ht l = ht r + 2" | (B) "ht l \<le> ht r + 1 \<and> ht r \<le> ht l + 1"
    using assms by (auto simp: pre_bal_def) arith
  then show ?thesis
  proof cases
    case L
    then have "rebalance pin l r (gmax r) = rotLeft pin l r" by (simp add: rebalance_def)
    with rotLeft_avlp [OF assms L, of pin] L show ?thesis by auto
  next
    case R
    then have "rebalance pin l r (gmax r) = rotRight pin l r (gmax r)" by (simp add: rebalance_def)
    with rotRight_avlp [OF assms R, of pin] R show ?thesis by auto
  next
    case B
    then have "rebalance pin l r (gmax r) = Fork3 None pin (1 + max (ht l) (ht r)) l r (gmax r)"
      by (auto simp: rebalance_def)
    with assms B show ?thesis by (auto simp: pre_bal_def)
  qed
qed

lemma avlp_forkD:
  "avlp r \<Longrightarrow> 2 \<le> ht r \<Longrightarrow>
     \<exists>pin l' r'. r = Fork3 None pin (ht r) l' r' (gmax r) \<and> avlp l' \<and> avlp r'
        \<and> ht r = 1 + max (ht l') (ht r') \<and> ht l' \<le> ht r' + 1 \<and> ht r' \<le> ht l' + 1"
  by (cases r) simp_all

lemma insertBalance_eq:
  assumes "pre_bal l r" "key' \<le> gmax r"
  shows "insertBalance n c t pin l r (gmax r) key' = Some (rebalance pin l r (gmax r), t)"
proof -
  from assms have wl: "avlp l" and wr: "avlp r" by (auto simp: pre_bal_def)
  have nk: "compare key' (gmax r) \<noteq> 1" using assms(2) by (auto simp: compare_eq)
  consider (L) "ht l + 1 < ht r" | (R) "ht r + 1 < ht l" | (B) "ht l \<le> ht r + 1 \<and> ht r \<le> ht l + 1"
    by arith
  then show ?thesis
  proof cases
    case L
    then have "2 \<le> ht r" by simp
    from avlp_forkD [OF wr this] obtain nrpin nrl nrr where
      r: "r = Fork3 None nrpin (ht r) nrl nrr (gmax r)" and w: "avlp nrl" "avlp nrr" by blast
    show ?thesis
    proof (cases "ht nrl \<le> ht nrr")
      case True
      with L wl w show ?thesis
        by (subst r, subst (3) r) (simp add: insertBalance_def rebalance_def rotLeft_def Let_def)
    next
      case False
      then have "2 \<le> ht nrl" using avlp_ht_pos [OF w(2)] by simp
      from avlp_forkD [OF w(1) this] obtain nrlpin nrll nrlr where
        nrl: "nrl = Fork3 None nrlpin (ht nrl) nrll nrlr (gmax nrl)" and w2: "avlp nrll" "avlp nrlr" by blast
      have r2: "r = Fork3 None nrpin (ht r) (Fork3 None nrlpin (ht nrl) nrll nrlr (gmax nrl)) nrr (gmax r)"
        using r nrl by simp
      from False L wl w w2 show ?thesis
        by (subst r2, subst (3) r2) (simp add: insertBalance_def rebalance_def rotLeft_def Let_def)
    qed
  next
    case R
    then have "2 \<le> ht l" by simp
    from avlp_forkD [OF wl this] obtain nlpin nll nlr where
      l: "l = Fork3 None nlpin (ht l) nll nlr (gmax l)" and w: "avlp nll" "avlp nlr" by blast
    show ?thesis
    proof (cases "ht nlr \<le> ht nll")
      case True
      with R wr w nk show ?thesis
        by (subst l, subst (2) l) (simp add: insertBalance_def rebalance_def rotRight_def Let_def)
    next
      case False
      then have "2 \<le> ht nlr" using avlp_ht_pos [OF w(1)] by simp
      from avlp_forkD [OF w(2) this] obtain nlrpin nlrl nlrr where
        nlr: "nlr = Fork3 None nlrpin (ht nlr) nlrl nlrr (gmax nlr)" and w2: "avlp nlrl" "avlp nlrr" by blast
      have l2: "l = Fork3 None nlpin (ht l) nll (Fork3 None nlrpin (ht nlr) nlrl nlrr (gmax nlr)) (gmax l)"
        using l nlr by simp
      from False R wr w w2 show ?thesis
        by (subst l2, subst (2) l2) (simp add: insertBalance_def rebalance_def rotRight_def Let_def)
    qed
  next
    case B
    with wl wr show ?thesis
      by (auto simp: insertBalance_def rebalance_def Let_def)
  qed
qed

lemma deleteBalance_eq:
  assumes "pre_bal l r"
  shows "deleteBalance n c t pin l r (gmax r) = Some (rebalance pin l r (gmax r), t)"
proof -
  from assms have wl: "avlp l" and wr: "avlp r" and hb: "ht r \<le> ht l + 2" by (auto simp: pre_bal_def)
  consider (L) "ht l + 1 < ht r" | (R) "ht r + 1 < ht l" | (B) "ht l \<le> ht r + 1 \<and> ht r \<le> ht l + 1"
    by arith
  then show ?thesis
  proof cases
    case L
    then have "2 \<le> ht r" by simp
    from avlp_forkD [OF wr this] obtain nrpin nrl nrr where
      r: "r = Fork3 None nrpin (ht r) nrl nrr (gmax r)" and w: "avlp nrl" "avlp nrr"
      and h: "ht r = 1 + max (ht nrl) (ht nrr)" by blast
    show ?thesis
    proof (cases "ht nrl \<le> ht nrr")
      case True
      with L h hb have "max (1 + max (ht l) (ht nrl)) (ht nrl) = max (1 + max (ht l) (ht nrl)) (ht nrr)"
        by simp
      with True L wl w show ?thesis
        by (subst r, subst (3) r) (simp add: deleteBalance_def rebalance_def rotLeft_def Let_def)
    next
      case False
      then have "2 \<le> ht nrl" using avlp_ht_pos [OF w(2)] by simp
      from avlp_forkD [OF w(1) this] obtain nrlpin nrll nrlr where
        nrl: "nrl = Fork3 None nrlpin (ht nrl) nrll nrlr (gmax nrl)" and w2: "avlp nrll" "avlp nrlr" by blast
      have r2: "r = Fork3 None nrpin (ht r) (Fork3 None nrlpin (ht nrl) nrll nrlr (gmax nrl)) nrr (gmax r)"
        using r nrl by simp
      from False L wl w w2 show ?thesis
        by (subst r2, subst (3) r2) (simp add: deleteBalance_def rebalance_def rotLeft_def Let_def)
    qed
  next
    case R
    then have "2 \<le> ht l" by simp
    from avlp_forkD [OF wl this] obtain nlpin nll nlr where
      l: "l = Fork3 None nlpin (ht l) nll nlr (gmax l)" and w: "avlp nll" "avlp nlr" by blast
    show ?thesis
    proof (cases "ht nlr \<le> ht nll")
      case True
      with R wr w show ?thesis
        by (subst l, subst (2) l) (simp add: deleteBalance_def rebalance_def rotRight_def Let_def)
    next
      case False
      then have "2 \<le> ht nlr" using avlp_ht_pos [OF w(1)] by simp
      from avlp_forkD [OF w(2) this] obtain nlrpin nlrl nlrr where
        nlr: "nlr = Fork3 None nlrpin (ht nlr) nlrl nlrr (gmax nlr)" and w2: "avlp nlrl" "avlp nlrr" by blast
      have l2: "l = Fork3 None nlpin (ht l) nll (Fork3 None nlrpin (ht nlr) nlrl nlrr (gmax nlr)) (gmax l)"
        using l nlr by simp
      from False R wr w w2 show ?thesis
        by (subst l2, subst (2) l2) (simp add: deleteBalance_def rebalance_def rotRight_def Let_def)
    qed
  next
    case B
    with wl wr show ?thesis
      by (auto simp: deleteBalance_def rebalance_def Let_def)
  qed
qed

lemma avlp_gmax_Max: "avlp r \<Longrightarrow> finite (keys r)"
  by (induction r) auto

lemma insert3_avlp:
  "avlp r \<Longrightarrow> \<exists>r'. insert3 n c t r k v = Some (r', t) \<and> avlp r'
      \<and> keys r' = Set.insert k (keys r) \<and> lookup r' = (lookup r)(k \<mapsto> v)
      \<and> gmax r' = max (gmax r) k
      \<and> ht r \<le> ht r' \<and> ht r' \<le> ht r + 1"
proof (induction r)
  case Nil3
  then show ?case by simp
next
  case (Leaf3 a pin k' v' vid vl)
  then show ?case
    by (auto simp: compare_eq Let_def freeValueId_def max_def map_add_def fun_eq_iff split: option.splits)
next
  case (Fork3 a pin h l r m)
  then have wl: "avlp l" and wr: "avlp r" and m: "m = gmax r" and o: "\<forall>x \<in> keys r. gmax l < x"
    and a: "a = None" and h: "h = 1 + max (ht l) (ht r)" "ht l \<le> ht r + 1" "ht r \<le> ht l + 1"
    by auto
  have lm: "gmax l < gmax r" using o avlp_gmax_in [OF wr] by auto
  show ?case
  proof (cases "k \<le> gmax l")
    case True
    from Fork3.IH(1) [OF wl] obtain l' where
      i: "insert3 n c t l k v = Some (l', t)" and wl': "avlp l'"
      and kl: "keys l' = Set.insert k (keys l)" and ll: "lookup l' = (lookup l)(k \<mapsto> v)"
      and gl: "gmax l' = max (gmax l) k" and hl: "ht l \<le> ht l'" "ht l' \<le> ht l + 1"
      by blast
    from True gl have gl': "gmax l' = gmax l" by (simp add: max_def)
    have pb: "pre_bal l' r" using wl' wr o gl' hl h by (auto simp: pre_bal_def)
    have kr: "k \<le> gmax r" using True lm by simp
    have knr: "k \<notin> keys r" using True o by auto
    then have lr: "lookup r k = None" using dom_lookup [OF wr] by blast
    have e: "insert3 n c t (Fork3 a pin h l r m) k v = Some (rebalance pin l' r (gmax r), t)"
      using True a wl i m insertBalance_eq [OF pb kr]
      by (auto simp: compare_eq Let_def)
    have "(lookup l)(k \<mapsto> v) ++ lookup r = (lookup l ++ lookup r)(k \<mapsto> v)"
      using lr by (auto simp: map_add_def fun_eq_iff split: option.splits)
    with e rebalance_avlp [OF pb, of pin] kl ll hl h m kr show ?thesis
      by (auto simp: max_def)
  next
    case False
    from Fork3.IH(2) [OF wr] obtain r' where
      i: "insert3 n c t r k v = Some (r', t)" and wr': "avlp r'"
      and kr: "keys r' = Set.insert k (keys r)" and lr: "lookup r' = (lookup r)(k \<mapsto> v)"
      and gr: "gmax r' = max (gmax r) k" and hr: "ht r \<le> ht r'" "ht r' \<le> ht r + 1"
      by blast
    have pb: "pre_bal l r'" using wl wr' o kr False hr h by (auto simp: pre_bal_def)
    have kk: "k \<le> gmax r'" using gr by simp
    have e: "insert3 n c t (Fork3 a pin h l r m) k v = Some (rebalance pin l r' (gmax r'), t)"
      using False a wl wr' i insertBalance_eq [OF pb kk]
      by (auto simp: compare_eq Let_def)
    with rebalance_avlp [OF pb, of pin] kr lr gr hr h m show ?thesis
      by (auto simp: max_def)
  qed
next
  case (Arrow3 a pid h m)
  then show ?case by simp
qed

lemma Get_loop_avlp:
  "avlp r \<Longrightarrow> Get_loop n c t r k =
     Some (case lookup r k of None \<Rightarrow> ([], False) | Some v \<Rightarrow> (v, True))"
proof (induction r)
  case (Leaf3 a pin k' v vid vl)
  then show ?case by (auto simp: nvalue_def)
next
  case (Fork3 a pin h l r m)
  then have wl: "avlp l" and wr: "avlp r" and o: "\<forall>x \<in> keys r. gmax l < x" by auto
  show ?case
  proof (cases "k \<le> gmax l")
    case True
    then have "k \<notin> keys r" using o by auto
    then have "lookup r k = None" using dom_lookup [OF wr] by blast
    then have "(lookup l ++ lookup r) k = lookup l k" by (simp add: map_add_def)
    with True wl Fork3.IH(1) [OF wl] show ?thesis
      by (auto simp: compare_simps Let_def)
  next
    case False
    then have "k \<notin> keys l" using avlp_keys_le [OF wl] by auto
    then have "lookup l k = None" using dom_lookup [OF wl] by blast
    then have "(lookup l ++ lookup r) k = lookup r k" by (simp add: map_add_def split: option.splits)
    with False wl Fork3.IH(2) [OF wr] show ?thesis
      by (auto simp: compare_simps Let_def)
  qed
qed simp_all

lemma Insert_scan_avlp:
  "avlp r \<Longrightarrow> Insert_scan n c t r k v =
     Some (case lookup r k of None \<Rightarrow> Break True
           | Some v' \<Rightarrow> if v = v' then ReturnFalse else Break False)"
proof (induction r)
  case (Leaf3 a pin k' v' vid vl)
  then show ?case by (auto simp: nvalue_def)
next
  case (Fork3 a pin h l r m)
  then have wl: "avlp l" and wr: "avlp r" and o: "\<forall>x \<in> keys r. gmax l < x" by auto
  show ?case
  proof (cases "k \<le> gmax l")
    case True
    then have "k \<notin> keys r" using o by auto
    then have "lookup r k = None" using dom_lookup [OF wr] by blast
    then have "(lookup l ++ lookup r) k = lookup l k" by (simp add: map_add_def)
    with True wl Fork3.IH(1) [OF wl] show ?thesis
      by (auto simp: compare_simps Let_def)
  next
    case False
    then have "k \<notin> keys l" using avlp_keys_le [OF wl] by auto
    then have "lookup l k = None" using dom_lookup [OF wl] by blast
    then have "(lookup l ++ lookup r) k = lookup r k" by (simp add: map_add_def split: option.splits)
    with False wl Fork3.IH(2) [OF wr] show ?thesis
      by (auto simp: compare_simps Let_def)
  qed
qed simp_all

lemma Delete_scan_avlp:
  "avlp r \<Longrightarrow> Delete_scan n c t r k = Some (k \<in> keys r)"
proof (induction r)
  case (Fork3 a pin h l r m)
  then have wl: "avlp l" and wr: "avlp r" and o: "\<forall>x \<in> keys r. gmax l < x" by auto
  show ?case
  proof (cases "k \<le> gmax l")
    case True
    then have "k \<notin> keys r" using o by auto
    with True wl Fork3.IH(1) [OF wl] show ?thesis
      by (auto simp: compare_simps Let_def)
  next
    case False
    then have "k \<notin> keys l" using avlp_keys_le [OF wl] by auto
    with False wl Fork3.IH(2) [OF wr] show ?thesis
      by (auto simp: compare_simps Let_def)
  qed
qed auto

lemma avlp_leaf: "avlp r \<Longrightarrow> ht r = 1 \<Longrightarrow> \<exists>pin k v vl. r = Leaf3 None pin k v 0 vl"
proof (cases r)
  case (Fork3 a pin h l r' m)
  assume "avlp r" "ht r = 1"
  with Fork3 avlp_ht_pos [of l] show ?thesis by auto
qed auto

declare delete3.simps [simp del]

lemma delete3_fork:
  assumes "avlp (Fork3 a pin h l r m)"
  shows "delete3 n c t (Fork3 a pin h l r m) k =
     (if ht l = 1 \<and> ht r = 1 then deleteLeafLeaf n c t l r (compare k (gmax l))
      else if k \<le> gmax l
      then Option.bind (delete3 n c t l k)
             (\<lambda>(l2, t2). if l2 = Nil3 then Some (r, t2) else deleteBalance n c t2 pin l2 r m)
      else Option.bind (delete3 n c t r k)
             (\<lambda>(r2, t2). if r2 = Nil3 then Some (l, t2)
                          else Option.bind (getmax r2) (\<lambda>m2. deleteBalance n c t2 pin l r2 m2)))"
proof -
  from assms have wl: "avlp l" and wr: "avlp r" and a: "a = None" by auto
  have il: "IsLeaf n c t l = Some (ht l = 1)" "IsLeaf n c t r = Some (ht r = 1)"
    using avlp_IsLeaf wl wr by auto
  show ?thesis
    unfolding a
    by (simp add: delete3.simps il wl compare_simps Let_def)
qed

lemma deleteLeafLeaf_avlp:
  assumes "avlp l" "avlp r" "ht l = 1" "ht r = 1"
  shows "deleteLeafLeaf n c t l r (compare k (gmax l)) = Some (if k \<le> gmax l then r else l, t)"
proof -
  from avlp_leaf [OF assms(1,3)] obtain lpin lk lv lvl where l: "l = Leaf3 None lpin lk lv 0 lvl" by blast
  from avlp_leaf [OF assms(2,4)] obtain rpin rk rv rvl where r: "r = Leaf3 None rpin rk rv 0 rvl" by blast
  show ?thesis
    unfolding l r by (simp add: deleteLeafLeaf_def compare_simps freeValueId_def)
qed

lemma delete3_post:
  assumes e: "delete3 n c t f k = Some (res, t)"
    and w: "avlp res" and ks: "keys res = keys f - {k}"
    and lk: "lookup res = (lookup f)(k := None)"
    and h: "ht f \<noteq> 1" "ht res \<le> ht f" "ht f \<le> ht res + 1"
  shows "\<exists>r'. delete3 n c t f k = Some (r', t)
        \<and> keys r' = keys f - {k} \<and> lookup r' = (lookup f)(k := None)
        \<and> (if ht f = 1 then r' = Nil3
            else avlp r' \<and> ht r' \<le> ht f \<and> ht f \<le> ht r' + 1)"
  using assms by (intro exI [of _ res]) simp

lemma delete3_avlp:
  "avlp r \<Longrightarrow> k \<in> keys r \<Longrightarrow>
     \<exists>r'. delete3 n c t r k = Some (r', t)
        \<and> keys r' = keys r - {k} \<and> lookup r' = (lookup r)(k := None)
        \<and> (if ht r = 1 then r' = Nil3
            else avlp r' \<and> ht r' \<le> ht r \<and> ht r \<le> ht r' + 1)"
proof (induction r)
  case (Leaf3 a pin k' v vid vl)
  then show ?case by (auto simp: delete3.simps freeValueId_def)
next
  case (Fork3 a pin h l r m)
  let ?f = "Fork3 a pin h l r m"
  from Fork3.prems have wl: "avlp l" and wr: "avlp r" and m: "m = gmax r" and o: "\<forall>x \<in> keys r. gmax l < x"
    and a: "a = None" and h: "h = 1 + max (ht l) (ht r)" "ht l \<le> ht r + 1" "ht r \<le> ht l + 1"
    by auto
  have hp: "1 \<le> ht l" "1 \<le> ht r" using avlp_ht_pos wl wr by auto
  have hf: "ht ?f \<noteq> 1" using h hp by simp
  have dl: "dom (lookup l) = keys l" and dr: "dom (lookup r) = keys r"
    using dom_lookup wl wr by auto
  note df = delete3_fork [OF Fork3.prems(1), of n c t k]
  show ?case
  proof (cases "k \<le> gmax l")
    case True
    then have knr: "k \<notin> keys r" using o by auto
    with Fork3.prems have kl: "k \<in> keys l" by simp
    from Fork3.IH(1) [OF wl kl] obtain l' where
      d: "delete3 n c t l k = Some (l', t)" and kl': "keys l' = keys l - {k}"
      and ll: "lookup l' = (lookup l)(k := None)"
      and hl: "if ht l = 1 then l' = Nil3 else avlp l' \<and> ht l' \<le> ht l \<and> ht l \<le> ht l' + 1"
      by blast
    have "lookup r k = None" using knr dr by blast
    then have lk: "(lookup ?f)(k := None) = (lookup l)(k := None) ++ lookup r"
      by (auto simp: map_add_def fun_eq_iff split: option.splits)
    have ks: "keys ?f - {k} = (keys l - {k}) \<union> keys r" using knr by auto
    show ?thesis
    proof (cases "ht l = 1")
      case True
      from avlp_leaf [OF wl True] obtain lpin lk' lv lvl where l: "l = Leaf3 None lpin lk' lv 0 lvl" by blast
      with kl have lk': "lk' = k" by simp
      have kle: "keys l - {k} = {}" using l lk' by simp
      have lle: "(lookup l)(k := None) = Map.empty" using l lk' by auto
      have e: "delete3 n c t ?f k = Some (r, t)"
      proof (cases "ht r = 1")
        case True
        with \<open>ht l = 1\<close> \<open>k \<le> gmax l\<close> deleteLeafLeaf_avlp [OF wl wr, of n c t k]
        show ?thesis by (subst df) simp
      next
        case False
        have "delete3 n c t l k = Some (Nil3, t)" using d hl True by simp
        with False \<open>k \<le> gmax l\<close> show ?thesis by (subst df) simp
      qed
      have hr: "ht r \<le> ht ?f" "ht ?f \<le> ht r + 1" using h True hp by auto
      show ?thesis
        by (rule delete3_post [OF e wr _ _ hf hr]) (simp_all only: ks lk kle lle Un_empty_left empty_map_add)
    next
      case False
      with hl have wl': "avlp l'" and hl': "ht l' \<le> ht l" "ht l \<le> ht l' + 1" by auto
      have nn: "l' \<noteq> Nil3" using wl' by auto
      have "gmax l' \<le> gmax l" using avlp_gmax_in [OF wl'] kl' avlp_keys_le [OF wl] by auto
      then have pb: "pre_bal l' r" using wl' wr o hl' h by (auto simp: pre_bal_def)
      let ?res = "rebalance pin l' r (gmax r)"
      have e: "delete3 n c t ?f k = Some (?res, t)"
        using False d m nn \<open>k \<le> gmax l\<close> deleteBalance_eq [OF pb, of n c t pin]
        by (subst df) simp
      from rebalance_avlp [OF pb, of pin] have rw: "avlp ?res" and rk: "keys ?res = keys l' \<union> keys r"
        and rl: "lookup ?res = lookup l' ++ lookup r"
        and rh: "max (ht l') (ht r) \<le> ht ?res" "ht ?res \<le> 1 + max (ht l') (ht r)"
           "ht l' \<le> ht r + 1 \<and> ht r \<le> ht l' + 1 \<longrightarrow> ht ?res = 1 + max (ht l') (ht r)"
        by blast+
      have hr: "ht ?res \<le> ht ?f" "ht ?f \<le> ht ?res + 1"
        using rh hl' h by (simp_all add: max_def split: if_splits)
      show ?thesis
        by (rule delete3_post [OF e rw _ _ hf hr]) (simp_all only: ks lk rk rl kl' ll)
    qed
  next
    case False
    then have knl: "k \<notin> keys l" using avlp_keys_le [OF wl] by auto
    with Fork3.prems have kr: "k \<in> keys r" by simp
    from Fork3.IH(2) [OF wr kr] obtain r' where
      d: "delete3 n c t r k = Some (r', t)" and kr': "keys r' = keys r - {k}"
      and lr: "lookup r' = (lookup r)(k := None)"
      and hr: "if ht r = 1 then r' = Nil3 else avlp r' \<and> ht r' \<le> ht r \<and> ht r \<le> ht r' + 1"
      by blast
    have "lookup l k = None" using knl dl by blast
    then have lk: "(lookup ?f)(k := None) = lookup l ++ (lookup r)(k := None)"
      by (auto simp: map_add_def fun_eq_iff split: option.splits)
    have ks: "keys ?f - {k} = keys l \<union> (keys r - {k})" using knl by auto
    show ?thesis
    proof (cases "ht r = 1")
      case True
      from avlp_leaf [OF wr True] obtain rpin rk rv rvl where r: "r = Leaf3 None rpin rk rv 0 rvl" by blast
      with kr have rk: "rk = k" by simp
      have kre: "keys r - {k} = {}" using r rk by simp
      have lre: "(lookup r)(k := None) = Map.empty" using r rk by auto
      have e: "delete3 n c t ?f k = Some (l, t)"
      proof (cases "ht l = 1")
        case True
        with \<open>ht r = 1\<close> \<open>\<not> k \<le> gmax l\<close> deleteLeafLeaf_avlp [OF wl wr, of n c t k]
        show ?thesis by (subst df) simp
      next
        case False
        have "delete3 n c t r k = Some (Nil3, t)" using d hr True by simp
        with False \<open>\<not> k \<le> gmax l\<close> show ?thesis by (subst df) simp
      qed
      have hl: "ht l \<le> ht ?f" "ht ?f \<le> ht l + 1" using h True hp by auto
      show ?thesis
        by (rule delete3_post [OF e wl _ _ hf hl]) (simp_all only: ks lk kre lre Un_empty_right map_add_empty)
    next
      case False
      with hr have wr': "avlp r'" and hr': "ht r' \<le> ht r" "ht r \<le> ht r' + 1" by auto
      have nn: "r' \<noteq> Nil3" using wr' by auto
      have pb: "pre_bal l r'" using wl wr' o kr' hr' h by (auto simp: pre_bal_def)
      let ?res = "rebalance pin l r' (gmax r')"
      have e: "delete3 n c t ?f k = Some (?res, t)"
        using False wr' d nn \<open>\<not> k \<le> gmax l\<close> deleteBalance_eq [OF pb, of n c t pin]
        by (subst df) simp
      from rebalance_avlp [OF pb, of pin] have rw: "avlp ?res" and rk: "keys ?res = keys l \<union> keys r'"
        and rl: "lookup ?res = lookup l ++ lookup r'"
        and rh: "max (ht l) (ht r') \<le> ht ?res" "ht ?res \<le> 1 + max (ht l) (ht r')"
           "ht l \<le> ht r' + 1 \<and> ht r' \<le> ht l + 1 \<longrightarrow> ht ?res = 1 + max (ht l) (ht r')"
        by blast+
      have hh: "ht ?res \<le> ht ?f" "ht ?f \<le> ht ?res + 1"
        using rh hr' h by (simp_all add: max_def split: if_splits)
      show ?thesis
        by (rule delete3_post [OF e rw _ _ hf hh]) (simp_all only: ks lk rk rl kr' lr)
    qed
  qed
qed (simp_all add: delete3.simps)

declare insert3.simps [simp del]

lemma Insert_avlp:
  assumes "avlp_root (root t)"
  shows "\<exists>r'. Insert n c t k v = Some (k \<notin> keys (root t), t\<lparr>root := r'\<rparr>) \<and> avlp r'
            \<and> lookup r' = (lookup (root t))(k \<mapsto> v) \<and> keys r' = Set.insert k (keys (root t))"
proof (cases "root t = Nil3")
  case True
  then show ?thesis
    by (intro exI [of _ "Leaf3 None 0 k v 0 (of_nat (length v))"])
       (simp add: Insert_def insert3.simps)
next
  case False
  with assms have w: "avlp (root t)" by (simp add: avlp_root_def)
  have d: "dom (lookup (root t)) = keys (root t)" by (rule dom_lookup [OF w])
  from insert3_avlp [OF w, of n c t k v] obtain r' where
    i: "insert3 n c t (root t) k v = Some (r', t)" and w': "avlp r'"
    and k': "keys r' = Set.insert k (keys (root t))" and l': "lookup r' = (lookup (root t))(k \<mapsto> v)"
    by blast
  show ?thesis
  proof (cases "lookup (root t) k")
    case None
    then have "k \<notin> keys (root t)" using d by blast
    with None i w' k' l' show ?thesis
      by (intro exI [of _ r']) (simp add: Insert_def Insert_scan_avlp [OF w])
  next
    case (Some v')
    then have kin: "k \<in> keys (root t)" using d by blast
    show ?thesis
    proof (cases "v = v'")
      case True
      have "(lookup (root t))(k \<mapsto> v) = lookup (root t)" using Some True by (auto simp: fun_eq_iff)
      moreover have "t\<lparr>root := root t\<rparr> = t" by simp
      ultimately show ?thesis
        using Some True kin w
        by (intro exI [of _ "root t"]) (simp add: Insert_def Insert_scan_avlp [OF w] insert_absorb)
    next
      case False
      with Some kin i w' k' l' show ?thesis
        by (intro exI [of _ r']) (simp add: Insert_def Insert_scan_avlp [OF w])
    qed
  qed
qed

lemma Delete_avlp:
  assumes "avlp_root (root t)"
  shows "\<exists>r'. Delete n c t k = Some (k \<in> keys (root t), t\<lparr>root := r'\<rparr>) \<and> avlp_root r'
            \<and> lookup r' = (lookup (root t))(k := None) \<and> keys r' = keys (root t) - {k}"
proof (cases "root t = Nil3")
  case True
  moreover have "t\<lparr>root := root t\<rparr> = t" by simp
  ultimately show ?thesis
    by (intro exI [of _ "root t"]) (simp add: Delete_def avlp_root_def)
next
  case False
  with assms have w: "avlp (root t)" by (simp add: avlp_root_def)
  have d: "dom (lookup (root t)) = keys (root t)" by (rule dom_lookup [OF w])
  show ?thesis
  proof (cases "k \<in> keys (root t)")
    case True
    from delete3_avlp [OF w True, of n c t] obtain r' where
      i: "delete3 n c t (root t) k = Some (r', t)"
      and k': "keys r' = keys (root t) - {k}" and l': "lookup r' = (lookup (root t))(k := None)"
      and h: "if ht (root t) = 1 then r' = Nil3 else avlp r' \<and> ht r' \<le> ht (root t) \<and> ht (root t) \<le> ht r' + 1"
      by blast
    from h have "avlp_root r'" by (auto simp: avlp_root_def split: if_splits)
    with True i k' l' show ?thesis
      by (intro exI [of _ r']) (simp add: Delete_def Delete_scan_avlp [OF w])
  next
    case False
    then have "lookup (root t) k = None" using d by blast
    then have "(lookup (root t))(k := None) = lookup (root t)" by (auto simp: fun_eq_iff)
    moreover have "t\<lparr>root := root t\<rparr> = t" by simp
    ultimately show ?thesis
      using False assms
      by (intro exI [of _ "root t"]) (simp add: Delete_def Delete_scan_avlp [OF w])
  qed
qed

lemma Get_avlp:
  assumes "avlp_root (root t)"
  shows "Get n c t k = Some (ref_get (lookup (root t)) k)"
proof (cases "root t = Nil3")
  case True
  then show ?thesis by (simp add: Get_def ref_get_def)
next
  case False
  with assms have w: "avlp (root t)" by (simp add: avlp_root_def)
  show ?thesis by (simp add: Get_def ref_get_def Get_loop_avlp [OF w])
qed

lemma apply_op_avlp:
  assumes "avlp_root (root t)"
  shows "\<exists>t'. apply_op n c t x = Some t' \<and> avlp_root (root t')
            \<and> lookup (root t') = ref_apply (lookup (root t)) x
            \<and> prevRoot t' = prevRoot t"
proof (cases x)
  case (OpInsert k v)
  from Insert_avlp [OF assms, of n c k v] obtain r' where
    "Insert n c t k v = Some (k \<notin> keys (root t), t\<lparr>root := r'\<rparr>)" "avlp r'"
    "lookup r' = (lookup (root t))(k \<mapsto> v)" by blast
  with OpInsert show ?thesis by (simp add: avlp_root_def)
next
  case (OpDelete k)
  from Delete_avlp [OF assms, of n c k] obtain r' where
    "Delete n c t k = Some (k \<in> keys (root t), t\<lparr>root := r'\<rparr>)" "avlp_root r'"
    "lookup r' = (lookup (root t))(k := None)" by blast
  with OpDelete show ?thesis by simp
qed

lemma run_ops_avlp:
  "avlp_root (root t) \<Longrightarrow>
     \<exists>t'. run_ops n c t ops = Some t' \<and> avlp_root (root t')
        \<and> lookup (root t') = foldl ref_apply (lookup (root t)) ops
        \<and> prevRoot t' = prevRoot t"
proof (induction ops arbitrary: t)
  case Nil
  then show ?case by simp
next
  case (Cons x xs)
  from apply_op_avlp [OF Cons.prems, of n c x] obtain t1 where
    a: "apply_op n c t x = Some t1" "avlp_root (root t1)"
       "lookup (root t1) = ref_apply (lookup (root t)) x" "prevRoot t1 = prevRoot t" by blast
  from Cons.IH [OF a(2)] a show ?case by auto
qed

lemma NewAvl3_avlp: "avlp_root (root NewAvl3)" "lookup (root NewAvl3) = Map.empty" "prevRoot NewAvl3 = Nil3"
  by (simp_all add: NewAvl3_def avlp_root_def)

section \<open>The claims\<close>

text \<open>
  C1. For every sequence of \<open>Insert(k, v)\<close> and \<open>Delete(k)\<close> applied to a fresh engine
  (\<open>NewAvl3\<close>: no files, maps in memory) and to a reference map \<open>M\<close>, the sequence runs
  without a panic and, for every key \<open>k\<close>, \<open>Get(k)\<close> returns \<open>(M[k], true)\<close> when \<open>k\<close> is in
  \<open>M\<close> and \<open>(nil, false)\<close> otherwise. This holds for every bound on page loads, as no
  page is ever loaded.
\<close>

theorem roundtrip:
  "\<exists>t. run_ops n c NewAvl3 ops = Some t
       \<and> Get n c t k = Some (ref_get (foldl ref_apply Map.empty ops) k)"
proof -
  from run_ops_avlp [OF NewAvl3_avlp(1), of n c ops] obtain t where
    "run_ops n c NewAvl3 ops = Some t" "avlp_root (root t)"
    "lookup (root t) = foldl ref_apply Map.empty ops"
    by (auto simp: NewAvl3_avlp)
  with Get_avlp [of t n c k] show ?thesis by auto
qed

subsection \<open>Page id allocation\<close>

lemma fold_max_Max:
  "fold (\<lambda>pageId id. if id < pageId then pageId else id) xs (a::PageID) = Max (Set.insert a (set xs))"
proof -
  have "(\<lambda>pageId id. if id < pageId then pageId else id) = (max :: PageID \<Rightarrow> PageID \<Rightarrow> PageID)"
    by (intro ext) (auto simp: max_def)
  then show ?thesis
    using Max.set_eq_fold [of a xs] by simp
qed

lemma Max_insert_zero:
  "xs \<noteq> [] \<Longrightarrow> Max (Set.insert (0::PageID) (set xs)) = Max (set xs)"
  by (simp add: max_def)

text \<open>
  C4, as amended. \<open>nextPageId\<close> allocates in this order: if the recycle set holds a
  non-zero id, it removes and returns the maximum of the set; otherwise (the set is
  empty or holds only the id 0, which stays in it), if the free list is non-empty, it
  pops and returns the last element; otherwise it increments \<open>maxPageId\<close> and returns the
  new value. The id returned is 0 exactly when no non-zero id is in the recycle set and
  either the entry popped from the free list is 0 or, the free list being empty,
  \<open>maxPageId\<close> wraps around from \<open>2^64 - 1\<close> to 0.
\<close>

theorem nextPageId_order:
  "nextPageId t =
     (if \<not> set (pagesToRecycle t) \<subseteq> {0}
      then (Max (set (pagesToRecycle t)),
            t\<lparr>pagesToRecycle := removeAll (Max (set (pagesToRecycle t))) (pagesToRecycle t)\<rparr>)
      else if freelist t \<noteq> []
      then (last (freelist t), t\<lparr>freelist := butlast (freelist t)\<rparr>)
      else (maxPageId t + 1, t\<lparr>maxPageId := maxPageId t + 1\<rparr>))
   \<and> (fst (nextPageId t) = 0 \<longleftrightarrow>
        set (pagesToRecycle t) \<subseteq> {0}
        \<and> (if freelist t \<noteq> [] then last (freelist t) = 0 else maxPageId t + 1 = 0))"
proof -
  let ?xs = "pagesToRecycle t"
  have m: "fold (\<lambda>pageId id. if id < pageId then pageId else id) ?xs 0 = Max (Set.insert 0 (set ?xs))"
    by (rule fold_max_Max)
  show ?thesis
  proof (cases "set ?xs \<subseteq> {0}")
    case True
    then have "Set.insert 0 (set ?xs) = {0}" by auto
    with m have "fold (\<lambda>pageId id. if id < pageId then pageId else id) ?xs 0 = 0" by simp
    with True show ?thesis by (simp add: nextPageId_def Let_def)
  next
    case False
    then obtain x where x: "x \<in> set ?xs" "x \<noteq> 0" by auto
    then have ne: "?xs \<noteq> []" by auto
    have mm: "Max (Set.insert 0 (set ?xs)) = Max (set ?xs)"
      using ne by (simp add: Max_insert_zero)
    have "x \<le> Max (set ?xs)" using x by simp
    with x have nz: "Max (set ?xs) \<noteq> 0"
      by (metis word_le_0_iff)
    with False m mm show ?thesis by (simp add: nextPageId_def Let_def)
  qed
qed

theorem nextPageId_order_witness:
  "nextPageId (NewAvl3\<lparr>pagesToRecycle := [3, 7, 5], freelist := [2, 9], maxPageId := 9\<rparr>)
     = (7, NewAvl3\<lparr>pagesToRecycle := [3, 5], freelist := [2, 9], maxPageId := 9\<rparr>)
   \<and> nextPageId (NewAvl3\<lparr>freelist := [2, 9], maxPageId := 9\<rparr>)
     = (9, NewAvl3\<lparr>freelist := [2], maxPageId := 9\<rparr>)
   \<and> nextPageId (NewAvl3\<lparr>maxPageId := 9\<rparr>) = (10, NewAvl3\<lparr>maxPageId := 10\<rparr>)"
  using nextPageId_order [of "NewAvl3\<lparr>pagesToRecycle := [3, 7, 5], freelist := [2, 9], maxPageId := 9\<rparr>"]
        nextPageId_order [of "NewAvl3\<lparr>freelist := [2, 9], maxPageId := 9\<rparr>"]
        nextPageId_order [of "NewAvl3\<lparr>maxPageId := 9\<rparr>"]
  by (simp add: NewAvl3_def)

text \<open>
  C4 as stated fails in three states of the page store. With the recycle set \<open>{0}\<close> and
  the free list \<open>[4]\<close> the recycle set is non-empty, yet its maximum is neither removed
  nor returned: the id is 4, popped from the free list. With the free list \<open>[0]\<close>, and
  with \<open>maxPageId = 2^64 - 1\<close>, the id returned is 0.
\<close>

theorem nextPageId_order_counterexample:
  "nextPageId (NewAvl3\<lparr>pagesToRecycle := [0], freelist := [4]\<rparr>)
     = (4, NewAvl3\<lparr>pagesToRecycle := [0], freelist := []\<rparr>)
   \<and> fst (nextPageId (NewAvl3\<lparr>freelist := [0]\<rparr>)) = 0
   \<and> fst (nextPageId (NewAvl3\<lparr>maxPageId := - 1\<rparr>)) = 0"
  by (simp add: nextPageId_def NewAvl3_def)

subsection \<open>The first pass of the serialiser\<close>

text \<open>
  C6, as amended. In the first pass, a fork and one child (the other child is committed)
  can share a page if and only if the pin of the child and the pin of the fork are
  compatible: either id is zero or the pins \<open>(id, is_old)\<close> are identical; the merged pin
  is the non-zero one, and the fork's own when both are zero. A fork and both children
  can share a page if and only if the three pins are compatible in pairs and it is not
  exactly one of the three ids that is zero (so at least two ids are zero, or the three
  pins are identical); the merged pin is again the non-zero one, and the fork's own
  when the pins of both children are zero. \<open>mergePin2\<close> takes the child's pin first,
  \<open>mergePin3\<close> the pins of the left child, the right child and the fork.
\<close>

theorem pin_merge_rule:
  "mergePin2 p q = (if compatible p q then (True, if pin_id p = 0 then q else p)
                    else (False, PinnedPageID 0 False))
   \<and> mergePin3 l r f =
       (if compatible l r \<and> compatible l f \<and> compatible r f \<and> zero_ids l r f \<noteq> 1
        then (True, if pin_id l \<noteq> 0 then l else if pin_id r \<noteq> 0 then r else f)
        else (False, PinnedPageID 0 False))"
  by (cases p; cases q; cases l; cases r; cases f)
     (auto simp: mergePin2_def mergePin3_def compatible_def zero_ids_def)

theorem pin_merge_rule_witness:
  "mergePin2 (PinnedPageID 5 True) (PinnedPageID 0 False) = (True, PinnedPageID 5 True)
   \<and> mergePin3 (PinnedPageID 0 False) (PinnedPageID 5 True) (PinnedPageID 0 False)
       = (True, PinnedPageID 5 True)
   \<and> mergePin3 (PinnedPageID 0 False) (PinnedPageID 5 True) (PinnedPageID 6 True)
       = (False, PinnedPageID 0 False)"
  using pin_merge_rule [of "PinnedPageID 5 True" "PinnedPageID 0 False" "PinnedPageID 0 False" "PinnedPageID 5 True" "PinnedPageID 0 False"]
        pin_merge_rule [of "PinnedPageID 5 True" "PinnedPageID 0 False" "PinnedPageID 0 False" "PinnedPageID 5 True" "PinnedPageID 6 True"]
  by (simp add: compatible_def zero_ids_def)

text \<open>
  C6 as stated fails for the decision on a fork and both children: the pins \<open>(0, new)\<close>
  of the left child, \<open>(5, old)\<close> of the right child and \<open>(5, old)\<close> of the fork are
  compatible in pairs, one id being zero and the other two pins identical, and the
  first pass does not merge them.
\<close>

theorem pin_merge_rule_counterexample:
  "compatible (PinnedPageID 0 False) (PinnedPageID 5 True)
   \<and> compatible (PinnedPageID 5 True) (PinnedPageID 5 True)
   \<and> mergePin3 (PinnedPageID 0 False) (PinnedPageID 5 True) (PinnedPageID 5 True)
       = (False, PinnedPageID 0 False)"
  by (simp add: compatible_def mergePin3_def)






subsection \<open>Scenarios\<close>

lemma three_inserts:
  "run_ops n c NewAvl3 [OpInsert [97] v1, OpInsert [98] v2, OpInsert [99] v3]
     = Some (NewAvl3\<lparr>root :=
         Fork3 None 0 3 (Leaf3 None 0 [97] v1 0 (of_nat (length v1)))
           (Fork3 None 0 2 (Leaf3 None 0 [98] v2 0 (of_nat (length v2)))
              (Leaf3 None 0 [99] v3 0 (of_nat (length v3))) [99]) [99]\<rparr>)"
  by (simp add: Insert_def insert3.simps insertBalance_def NewAvl3_def Let_def)

text \<open>
  C7, as amended. The keys \<open>"a"\<close>, \<open>"b"\<close>, \<open>"c"\<close> are the bytes 97, 98, 99. Starting from
  an empty engine, \<open>Insert("a")\<close>, \<open>Insert("b")\<close>, \<open>Insert("c")\<close> with any values produce
  a root fork of height 3 with \<open>max\<close> \<open>"c"\<close>, whose left subtree is the leaf \<open>"a"\<close> of height
  1 and whose right subtree is a fork of height 2 over the leaves \<open>"b"\<close> and \<open>"c"\<close>; no
  rotation takes place.
\<close>

theorem rotation_scenario:
  "map_option root (run_ops n c NewAvl3 [OpInsert [97] v1, OpInsert [98] v2, OpInsert [99] v3])
     = Some (Fork3 None 0 3 (Leaf3 None 0 [97] v1 0 (of_nat (length v1)))
               (Fork3 None 0 2 (Leaf3 None 0 [98] v2 0 (of_nat (length v2)))
                  (Leaf3 None 0 [99] v3 0 (of_nat (length v3))) [99]) [99])"
  unfolding three_inserts by simp

text \<open>
  C7 as stated fails: after the three inserts, here with the values \<open>"1"\<close>, \<open>"2"\<close>, \<open>"3"\<close>,
  the root has height 3, not 2, and there are two forks.
\<close>

theorem rotation_scenario_counterexample:
  "map_option root
     (run_ops 0 \<lparr>PageSize = 4096, InlineValueMax = 16, HashLength = 32\<rparr> NewAvl3
        [OpInsert [97] [49], OpInsert [98] [50], OpInsert [99] [51]])
   = Some (Fork3 None 0 3 (Leaf3 None 0 [97] [49] 0 1)
             (Fork3 None 0 2 (Leaf3 None 0 [98] [50] 0 1) (Leaf3 None 0 [99] [51] 0 1) [99]) [99])
   \<and> Option.bind (map_option root
          (run_ops 0 \<lparr>PageSize = 4096, InlineValueMax = 16, HashLength = 32\<rparr> NewAvl3
             [OpInsert [97] [49], OpInsert [98] [50], OpInsert [99] [51]])) getheight \<noteq> Some 2"
  unfolding three_inserts by simp

text \<open>
  C8. The claim is that a trailing partial entry of the version file is ignored. The
  loop goes on while \<open>ReadAt\<close> returns any byte: for a file of one entry, the page id 5,
  and three more bytes 1, 2, 3 it records a second version whose page id is made of the
  three bytes and the five bytes left in the buffer from the entry before, and
  \<open>currentVersion\<close> becomes 2.
\<close>

theorem version_file_partial_entry:
  "fst (UseFiles_versions [0, 0, 0, 0, 0, 0, 0, 5, 1, 2, 3] NewAvl3) = 72623842526232581
   \<and> currentVersion (snd (UseFiles_versions [0, 0, 0, 0, 0, 0, 0, 5, 1, 2, 3] NewAvl3)) = 2
   \<and> versions (snd (UseFiles_versions [0, 0, 0, 0, 0, 0, 0, 5, 1, 2, 3] NewAvl3)) 0 = Some 5
   \<and> versions (snd (UseFiles_versions [0, 0, 0, 0, 0, 0, 0, 5, 1, 2, 3] NewAvl3)) 1 = Some 72623842526232581"
  by code_simp

subsection \<open>The length of a page\<close>

lemma length_be32 [simp]: "length (be32 v) = 4"
  by (simp add: be32_def)

lemma length_be64 [simp]: "length (be64 v) = 8"
  by (simp add: be64_def)

lemma PutUint32_length: "PutUint32 d off v = Some d' \<Longrightarrow> length d' = length d"
  by (auto simp: PutUint32_def split: if_splits)

lemma PutUint64_length: "PutUint64 d off v = Some d' \<Longrightarrow> length d' = length d"
  by (auto simp: PutUint64_def split: if_splits)

lemma copy_at_length: "copy_at d off src = Some d' \<Longrightarrow> length d' = length d"
  by (auto simp: copy_at_def Let_def split: if_splits)

lemma set_bit_at_length: "set_bit_at d base b = Some d' \<Longrightarrow> length d' = length d"
  by (auto simp: set_bit_at_def Let_def split: if_splits)

lemma serialiseKey_length: "serialiseKey k cu = Some cu' \<Longrightarrow> length (data cu') = length (data cu)"
  by (auto simp: serialiseKey_def split: Option.bind_splits dest!: PutUint32_length copy_at_length)

lemma serialiseVal_length:
  "serialiseVal c v vid vl (cu, t) = Some (vid', cu', t') \<Longrightarrow> length (data cu') = length (data cu)"
  by (auto simp: serialiseVal_def Let_def split: Option.bind_splits if_splits prod.splits
           dest!: PutUint32_length PutUint64_length copy_at_length)

lemma serialisePass2_length:
  "serialisePass2 c r pageId prefixLen sp pbo sbo st = Some (r', cu', t')
     \<Longrightarrow> length (data cu') = length (data (fst st))"
proof (induction c r pageId prefixLen sp pbo sbo st arbitrary: r' cu' t' rule: serialisePass2.induct)
  case (1 c pageId prefixLen subtreePinned pageBitsOffset structBitsOffset st)
  then show ?case by auto
next
  case (2 c a pin k v vid vl pageId prefixLen subtreePinned pageBitsOffset structBitsOffset st)
  then show ?case
    by (cases st)
       (auto simp: Let_def split: Option.bind_splits if_splits
             dest!: serialiseKey_length serialiseVal_length set_bit_at_length)
next
  case (3 c a pin h l r m pageId prefixLen subtreePinned pageBitsOffset structBitsOffset st)
  from "3.prems" obtain l' cu1 t1 t2 r'' cu3 t3 d4 where
    s1: "serialisePass2 c l pageId prefixLen (subtreePinned \<or> pin = pageId \<or> a \<noteq> None) pageBitsOffset structBitsOffset st = Some (l', cu1, t1)"
    and p: "pin_arrow a pageId t1 = Some t2"
    and s2: "serialisePass2 c r pageId prefixLen (subtreePinned \<or> pin = pageId \<or> a \<noteq> None) pageBitsOffset structBitsOffset (cu1\<lparr>structBit := structBit cu1 + 1\<rparr>, t2) = Some (r'', cu3, t3)"
    and b: "set_bit_at (data cu3) structBitsOffset (structBit cu3) = Some d4"
    and e: "cu' = cu3\<lparr>data := d4, structBit := structBit cu3 + 1\<rparr>"
    by (auto simp: Let_def split: Option.bind_splits)
  from "3.IH"(1) [OF refl s1] have "length (data cu1) = length (data (fst st))" .
  moreover from "3.IH"(2) [OF refl s1 refl refl refl p s2]
  have "length (data cu3) = length (data cu1)" by simp
  ultimately show ?case using e set_bit_at_length [OF b] by simp
next
  case (4 c a pid h m pageId prefixLen subtreePinned pageBitsOffset structBitsOffset st)
  then show ?case
    by (cases st)
       (auto simp: Let_def split: Option.bind_splits if_splits
             dest!: serialiseKey_length PutUint32_length PutUint64_length set_bit_at_length)
qed

lemma commitPage_length:
  "commitPage c t r m = Some (pid, d, r', t1) \<Longrightarrow>
     length d = unat (pageSize t (keyCount m) (pageCount m) (keyBodySize m) (valBodySize m)
                        (structBits m) (prefix m))
     \<and> pageMap t1 pid = Some d"
  by (auto simp: commitPage_def Let_def split: Option.bind_splits if_splits prod.splits
           dest!: PutUint32_length copy_at_length serialisePass2_length)


lemma PutUint32_ok:
  "unat off + 4 \<le> length d \<Longrightarrow> \<exists>d'. PutUint32 d off v = Some d' \<and> length d' = length d"
  by (simp add: PutUint32_def)

lemma copy_at_ok:
  "unat off \<le> length d \<Longrightarrow> \<exists>d'. copy_at d off src = Some d' \<and> length d' = length d"
  by (simp add: copy_at_def Let_def)

lemma copy_at_nil: "unat off \<le> length d \<Longrightarrow> copy_at d off [] = Some d"
  by (simp add: copy_at_def)

lemma set_bit_at_ok:
  "unat (base + drop_bit 3 b) < length d \<Longrightarrow> \<exists>d'. set_bit_at d base b = Some d' \<and> length d' = length d"
  by (simp add: set_bit_at_def Let_def)

lemma commitPage_plain_leaf:
  fixes k :: bytes
  assumes len: "length k + 28 < 2 ^ 32"
    and fresh: "pagesToRecycle t = []" "freelist t = []" "maxPageId t + 1 \<noteq> 0"
  shows "\<exists>d. commitPage c t (Leaf3 None 0 k [] 0 0)
            \<lparr>prefix = k, keyCount = 1, pageCount = 0, keyBodySize = of_nat (length k),
             valBodySize = 0, structBits = 1, pinnedPageId = PinnedPageID 0 False\<rparr>
          = Some (maxPageId t + 1, d, Leaf3 None 0 k [] 0 0,
                  t\<lparr>maxPageId := maxPageId t + 1,
                    pageMap := (pageMap t)(maxPageId t + 1 \<mapsto> d),
                    commitedCounter := commitedCounter t + 1,
                    pageSpace := pageSpace t + ucast (28 + (of_nat (length k) :: u32))\<rparr>)
          \<and> length d = 28 + length k"
proof -
  let ?W = "of_nat (length k) :: u32"
  let ?n = "28 + length k"
  have uW: "unat ?W = length k"
    using len by (simp add: unat_of_nat)
  have uW28: "unat (28 + ?W) = ?n"
    using len uW unat_add_lem [of 28 ?W] by simp
  have ps: "pageSize t 1 0 ?W 0 1 k = 28 + ?W"
    by (simp add: pageSize_def)
  have np: "nextPageId t = (maxPageId t + 1, t\<lparr>maxPageId := maxPageId t + 1\<rparr>)"
    using fresh by (simp add: nextPageId_def)
  obtain d1 where d1: "PutUint32 (replicate ?n 0) 0 1 = Some d1" "length d1 = ?n"
    using PutUint32_ok [of 0 "replicate ?n 0" 1] by auto
  obtain d2 where d2: "PutUint32 d1 8 28 = Some d2" "length d2 = ?n"
    using PutUint32_ok [of 8 d1 28] d1 by auto
  obtain d3 where d3: "copy_at d2 28 k = Some d3" "length d3 = ?n"
    using copy_at_ok [of 28 d2 k] d2 by auto
  obtain d4 where d4: "PutUint32 d3 12 (28 + ?W) = Some d4" "length d4 = ?n"
    using PutUint32_ok [of 12 d3 "28 + ?W"] d3 by auto
  have c4: "copy_at d4 (28 + ?W) [] = Some d4" "copy_at d4 (?W + 28) [] = Some d4"
    using d4 uW28 by (simp_all add: copy_at_nil add.commute)
  obtain d5 where d5: "PutUint32 d4 20 0 = Some d5" "length d5 = ?n"
    using PutUint32_ok [of 20 d4 0] d4 by auto
  have c5: "copy_at d5 (28 + ?W) [] = Some d5" "copy_at d5 (?W + 28) [] = Some d5"
    using d5 uW28 by (simp_all add: copy_at_nil add.commute)
  obtain d6 where d6: "set_bit_at d5 24 0 = Some d6" "length d6 = ?n"
    using set_bit_at_ok [of 24 0 d5] d5 by auto
  obtain d7 where d7: "PutUint32 d6 16 (28 + ?W) = Some d7" "length d7 = ?n"
    using PutUint32_ok [of 16 d6 "28 + ?W"] d6 by auto
  show ?thesis
    using fresh(3)
    by (simp add: commitPage_def ps uW28 np d1 d2 d3 d4 c4 d5 c5 d6 d7 Let_def
          slice_from_def serialiseKey_def serialiseVal_def pin_arrow_def)
qed

text \<open>
  C9. The claim is that every page written by \<open>commitPage\<close> has at most \<open>PageSize\<close> bytes.
  The buffer of a page has the length \<open>pageSize\<close> computes (\<open>commitPage_length\<close>), and the
  first pass compares it with \<open>PageSize\<close> only where it merges a fork with a child. For a
  single leaf there is no test: a key of \<open>PageSize\<close> bytes, inserted into a fresh engine
  with an empty value and committed, is written as a page of \<open>PageSize + 28\<close> bytes.
\<close>

theorem oversized_leaf_page:
  assumes "length k = unat (PageSize c)" and "unat (PageSize c) + 28 < 2 ^ 32"
  shows "Insert n c NewAvl3 k [] = Some (True, NewAvl3\<lparr>root := Leaf3 None 0 k [] 0 0\<rparr>)
         \<and> (\<exists>cnt t d. Commit c (NewAvl3\<lparr>root := Leaf3 None 0 k [] 0 0\<rparr>) = Some (cnt, t)
                \<and> pageMap t 1 = Some d \<and> length d = unat (PageSize c) + 28
                \<and> unat (PageSize c) < length d)"
proof -
  let ?t = "NewAvl3\<lparr>root := Leaf3 None 0 k [] 0 0\<rparr>"
  have i: "Insert n c NewAvl3 k [] = Some (True, ?t)"
    by (simp add: Insert_def insert3.simps NewAvl3_def)
  have len: "length k + 28 < 2 ^ 32" using assms by simp
  have f: "pagesToRecycle ?t = []" "freelist ?t = []" "maxPageId ?t + 1 \<noteq> 0" "maxPageId ?t = 0"
    by (simp_all add: NewAvl3_def)
  from commitPage_plain_leaf [OF len f(1,2,3), of c] obtain d where
    cp: "commitPage c ?t (Leaf3 None 0 k [] 0 0)
            \<lparr>prefix = k, keyCount = 1, pageCount = 0, keyBodySize = of_nat (length k),
             valBodySize = 0, structBits = 1, pinnedPageId = PinnedPageID 0 False\<rparr>
          = Some (1, d, Leaf3 None 0 k [] 0 0,
                  ?t\<lparr>maxPageId := 1, pageMap := (pageMap ?t)(1 \<mapsto> d),
                    commitedCounter := commitedCounter ?t + 1,
                    pageSpace := pageSpace ?t + ucast (28 + (of_nat (length k) :: u32))\<rparr>)"
    and ld: "length d = 28 + length k"
    by (auto simp: f(4))
  have e: "?t\<lparr>root := Leaf3 None 0 k [] 0 0\<rparr> = ?t" by simp
  have "\<exists>cnt t. Commit c ?t = Some (cnt, t) \<and> pageMap t 1 = Some d"
    by (simp add: Commit_def node_pin_def Let_def e cp) (simp add: NewAvl3_def)
  with i ld assms show ?thesis by auto
qed

theorem oversized_leaf_page_witness:
  "length (replicate 4096 (0 :: byte)) = unat (PageSize \<lparr>PageSize = 4096, InlineValueMax = 16, HashLength = 32\<rparr>)
   \<and> unat (PageSize \<lparr>PageSize = 4096, InlineValueMax = 16, HashLength = 32\<rparr>) + 28 < 2 ^ 32
   \<and> (\<exists>cnt t d. Commit \<lparr>PageSize = 4096, InlineValueMax = 16, HashLength = 32\<rparr>
                      (NewAvl3\<lparr>root := Leaf3 None 0 (replicate 4096 0) [] 0 0\<rparr>) = Some (cnt, t)
                \<and> pageMap t 1 = Some d \<and> length d = 4124)"
  using oversized_leaf_page [of "replicate 4096 0" "\<lparr>PageSize = 4096, InlineValueMax = 16, HashLength = 32\<rparr>" 0]
  by auto

subsection \<open>Keys that are not in the tree\<close>

inductive_simps has_leaf_Nil3 [simp]: "has_leaf c t Nil3 k"
inductive_simps has_leaf_Leaf3 [simp]: "has_leaf c t (Leaf3 a pin k' v vid vl) k"
inductive_simps has_leaf_Fork3 [simp]: "has_leaf c t (Fork3 a pin h l r m) k"
inductive_simps has_leaf_Arrow3: "has_leaf c t (Arrow3 a pid h m) k"

lemma has_leaf_keys: "k \<in> keys r \<Longrightarrow> has_leaf c t r k"
  by (induction r) auto

lemma has_leaf_loaded: "loaded r \<Longrightarrow> has_leaf c t r k \<longleftrightarrow> k \<in> keys r"
  by (induction r) auto

lemma Insert_scan_absent:
  "Insert_scan n c t r k v = Some sr \<Longrightarrow> \<not> has_leaf c t r k \<Longrightarrow> sr = Break True"
proof (induction n c t r k v rule: Insert_scan.induct)
  case (3 n c t a pin h l r m key' value')
  then show ?case
    by (auto simp: Let_def bind_eq_Some_conv split: if_splits)
next
  case (5 n c t a pid h m key' value')
  from "5.prems"(1) obtain cur rel where d: "deserialisePage c t pid (Some m) h = Some (cur, rel)"
    and nn: "cur \<noteq> Nil3" and s: "Insert_scan n c t cur key' value' = Some sr"
    by (auto simp: bind_eq_Some_conv split: if_splits)
  from "5.prems"(2) d have nh: "\<not> has_leaf c t cur key'"
    by (auto simp: has_leaf_Arrow3)
  from "5.IH" [of "(cur, rel)" cur rel] d nn s nh show ?case
    by simp
qed (auto split: if_splits)




lemma avlp_loaded: "avlp r \<Longrightarrow> loaded r"
  by (induction r) auto

text \<open>
  Inserting a key that is not in the tree. \<open>Insert(k, v)\<close> returns \<open>true\<close> whenever it returns.
  If the tree is empty or an AVL+ tree in memory, as in every state a fresh engine
  reaches by \<open>Insert\<close> and \<open>Delete\<close>, the first \<open>Insert(k, v)\<close> does return \<open>true\<close>, and a second
  \<open>Insert(k, v)\<close> returns \<open>false\<close> and leaves the whole engine as the first one left it;
  \<open>Get(k)\<close> is then \<open>(v, true)\<close>.
\<close>

lemma Insert_absent:
  assumes "\<not> has_leaf c t (root t) k"
  shows "(Insert n c t k v = None \<or> (\<exists>t'. Insert n c t k v = Some (True, t')))
       \<and> (avlp_root (root t) \<longrightarrow>
            (\<exists>t'. Insert n c t k v = Some (True, t') \<and> Insert n c t' k v = Some (False, t')
                  \<and> Get n c t' k = Some (v, True)))"
proof (intro conjI impI)
  show "Insert n c t k v = None \<or> (\<exists>t'. Insert n c t k v = Some (True, t'))"
  proof (cases "Insert n c t k v")
    case (Some res)
    then obtain sr where s: "Insert_scan n c t (root t) k v = Some sr"
      by (auto simp: Insert_def bind_eq_Some_conv)
    from Insert_scan_absent [OF s assms] have "sr = Break True" .
    with s Some show ?thesis
      by (auto simp: Insert_def bind_eq_Some_conv split: prod.splits)
  qed simp
next
  assume w: "avlp_root (root t)"
  from assms have nk: "k \<notin> keys (root t)" using has_leaf_keys by blast
  from Insert_avlp [OF w, of n c k v] nk obtain r' where
    i: "Insert n c t k v = Some (True, t\<lparr>root := r'\<rparr>)" and w': "avlp r'"
    and l': "lookup r' = (lookup (root t))(k \<mapsto> v)"
    by auto
  have "Insert_scan n c (t\<lparr>root := r'\<rparr>) r' k v = Some ReturnFalse"
    using Insert_scan_avlp [OF w', of n c "t\<lparr>root := r'\<rparr>" k v] l' by simp
  then have i2: "Insert n c (t\<lparr>root := r'\<rparr>) k v = Some (False, t\<lparr>root := r'\<rparr>)"
    by (simp add: Insert_def)
  have "avlp_root (root (t\<lparr>root := r'\<rparr>))" using w' by (simp add: avlp_root_def)
  from Get_avlp [OF this, of n c k] l'
  have "Get n c (t\<lparr>root := r'\<rparr>) k = Some (v, True)" by (simp add: ref_get_def)
  with i i2 show "\<exists>t'. Insert n c t k v = Some (True, t') \<and> Insert n c t' k v = Some (False, t')
      \<and> Get n c t' k = Some (v, True)"
    by blast
qed

subsection \<open>Two commits in a row\<close>

lemma Insert_arrow_nil:
  "root t = Arrow3 a pid h m \<Longrightarrow> deserialisePage c t pid (Some m) h = Some (Nil3, rel)
     \<Longrightarrow> Insert n c t k v = None"
  by (cases n) (simp_all add: Insert_def)


lemma two_commits_root:
  "map_option root (two_commits \<lparr>PageSize = 4096, InlineValueMax = 16, HashLength = 32\<rparr>)
     = Some (Arrow3 (Some []) 2 1 [97])"
  by code_simp

lemma two_commits_page:
  "Option.bind (two_commits \<lparr>PageSize = 4096, InlineValueMax = 16, HashLength = 32\<rparr>)
     (\<lambda>t. deserialisePage \<lparr>PageSize = 4096, InlineValueMax = 16, HashLength = 32\<rparr> t 2 (Some [97]) 1)
     = Some (Nil3, True)"
  by code_simp

lemma two_commits_state:
  "\<exists>t. two_commits \<lparr>PageSize = 4096, InlineValueMax = 16, HashLength = 32\<rparr> = Some t
       \<and> root t = Arrow3 (Some []) 2 1 [97]
       \<and> deserialisePage \<lparr>PageSize = 4096, InlineValueMax = 16, HashLength = 32\<rparr> t 2 (Some [97]) 1
           = Some (Nil3, True)
       \<and> \<not> has_leaf \<lparr>PageSize = 4096, InlineValueMax = 16, HashLength = 32\<rparr> t (root t) [98]"
proof -
  from two_commits_root obtain t where
    t: "two_commits \<lparr>PageSize = 4096, InlineValueMax = 16, HashLength = 32\<rparr> = Some t"
    and r: "root t = Arrow3 (Some []) 2 1 [97]"
    by auto
  from two_commits_page t have
    d: "deserialisePage \<lparr>PageSize = 4096, InlineValueMax = 16, HashLength = 32\<rparr> t 2 (Some [97]) 1
          = Some (Nil3, True)"
    by simp
  from r d have "\<not> has_leaf \<lparr>PageSize = 4096, InlineValueMax = 16, HashLength = 32\<rparr> t (root t) [98]"
    by (simp add: has_leaf_Arrow3)
  with t r d show ?thesis by blast
qed

lemma one_commit_works:
  "map_option root (one_commit \<lparr>PageSize = 4096, InlineValueMax = 16, HashLength = 32\<rparr>)
     = Some (Arrow3 (Some []) 1 1 [97])
   \<and> Option.bind (one_commit \<lparr>PageSize = 4096, InlineValueMax = 16, HashLength = 32\<rparr>)
        (\<lambda>t. map_option fst (Insert 1 \<lparr>PageSize = 4096, InlineValueMax = 16, HashLength = 32\<rparr> t [98] [50]))
       = Some True
   \<and> Option.bind (one_commit \<lparr>PageSize = 4096, InlineValueMax = 16, HashLength = 32\<rparr>)
        (\<lambda>t. map_option fst (Delete 1 \<lparr>PageSize = 4096, InlineValueMax = 16, HashLength = 32\<rparr> t [98]))
       = Some False
   \<and> Option.bind (one_commit \<lparr>PageSize = 4096, InlineValueMax = 16, HashLength = 32\<rparr>)
        (\<lambda>t. Get 1 \<lparr>PageSize = 4096, InlineValueMax = 16, HashLength = 32\<rparr> t [97])
       = Some ([49], True)"
  by code_simp

text \<open>
  C3. The claim is that \<open>Insert(k, v)\<close> into a tree that does not contain \<open>k\<close> returns
  \<open>true\<close>. On a fresh engine, after \<open>Insert("a", "1")\<close>, \<open>Commit\<close> and a second \<open>Commit\<close>, the
  root is an arrow to page 2, and page 2 holds nothing but the arrow to page 1, which
  \<open>deserialisePage\<close> never returns as the node asked for: it returns nil. The tree has
  no leaf \<open>"b"\<close>, and \<open>Insert("b", "2")\<close> panics in its pre-scan, whatever the bound on page
  loads. After the first \<open>Commit\<close> alone the same calls work (\<open>one_commit_works\<close>).
\<close>

theorem double_commit_insert:
  "\<exists>t. two_commits \<lparr>PageSize = 4096, InlineValueMax = 16, HashLength = 32\<rparr> = Some t
       \<and> root t = Arrow3 (Some []) 2 1 [97]
       \<and> \<not> has_leaf \<lparr>PageSize = 4096, InlineValueMax = 16, HashLength = 32\<rparr> t (root t) [98]
       \<and> deserialisePage \<lparr>PageSize = 4096, InlineValueMax = 16, HashLength = 32\<rparr> t 2 (Some [97]) 1
           = Some (Nil3, True)
       \<and> (\<forall>n. Insert n \<lparr>PageSize = 4096, InlineValueMax = 16, HashLength = 32\<rparr> t [98] [50] = None)"
  using two_commits_state by (auto dest: Insert_arrow_nil)

subsection \<open>Deleting a key that is not in the tree\<close>







subsection \<open>Heights and balance of the trees in memory\<close>

lemma avlp_heightsCorrect: "avlp r \<Longrightarrow> heightsCorrect r = Some (ht r, True)"
  by (induction r) auto

lemma avlp_balanceCorrect: "avlp r \<Longrightarrow> balanceCorrect r = Some True"
  by (induction r) (auto simp: Let_def)

text \<open>
  On an engine that starts empty and runs any sequence of \<open>Insert\<close> and \<open>Delete\<close>, with no
  \<open>Commit\<close>, every operation returns, the tree of the previous version stays empty, and
  the root is empty or passes \<open>heightsCorrect\<close> and \<open>balanceCorrect\<close>.
\<close>

lemma heights_balance_in_memory:
  "\<exists>t. run_ops n c NewAvl3 ops = Some t \<and> prevRoot t = Nil3
       \<and> (root t = Nil3
            \<or> (heightsCorrect (root t) = Some (ht (root t), True)
                 \<and> balanceCorrect (root t) = Some True))"
proof -
  from run_ops_avlp [OF NewAvl3_avlp(1), of n c ops] obtain t where
    r: "run_ops n c NewAvl3 ops = Some t" and w: "avlp_root (root t)"
    and p: "prevRoot t = prevRoot NewAvl3"
    by blast
  from w have "root t = Nil3 \<or> (heightsCorrect (root t) = Some (ht (root t), True)
                 \<and> balanceCorrect (root t) = Some True)"
    by (auto simp: avlp_root_def avlp_heightsCorrect avlp_balanceCorrect)
  with r p show ?thesis
    by (auto simp: NewAvl3_avlp(3))
qed

end
